theory Spec2Isabelle
  imports Main "HOL-Library.Word" "HOL-Library.Char_ord" "HOL-Library.List_Lexorder"
begin

section \<open>Data model (n8n/models.go)\<close>

text \<open>
  The Go structs become records. Field names are the source's; a prefix is added where two
  structs share a field name (\<open>ID\<close>, \<open>Name\<close>, \<open>Path\<close>, ...) or where the name is a constant of
  HOL (\<open>Id\<close>). Go strings are byte strings: \<open>string\<close>, a list of 8-bit characters.

  \<open>time.Time\<close> is the type parameter \<open>'t\<close>: the code only ever formats a workflow's
  timestamps with \<open>Format(time.RFC3339)\<close>, which the runtime record below provides.
  A Go map has no order. \<open>Credentials\<close> lists the map's entries in the order the JSON object
  declared them (keys distinct, \<open>[]\<close> for a nil or empty map); where the code ranges over the
  map, the entry the Go runtime happens to start with is a parameter (\<open>range_start\<close>).
  \<open>Options\<close> (\<open>map[string]interface{}\<close>) is only forwarded by the code: it is its JSON text,
  \<open>None\<close> for a nil map.
\<close>

record Instance =
  inst_Id :: string
  Host :: string
  APIKey :: string
  IgnoreSSLErrors :: bool
  CheckInterval :: "64 word"

definition NewInstance :: "string \<Rightarrow> string \<Rightarrow> string \<Rightarrow> Instance" where
  "NewInstance ident host apiKey =
     \<lparr>inst_Id = ident, Host = host, APIKey = apiKey, IgnoreSSLErrors = False, CheckInterval = 5\<rparr>"

record NodeParameters =
  HTTPMethod :: string
  Path :: string
  Authentication :: string
  Options :: "string option"

record NodeCredential =
  cred_ID :: string
  cred_Name :: string

record Node =
  node_ID :: string
  node_Name :: string
  node_Type :: string
  Parameters :: NodeParameters
  Credentials :: "(string \<times> NodeCredential) list"
  node_WebhookID :: string
  Notes :: string

record 't Workflow =
  wf_ID :: string
  wf_Name :: string
  WorkflowID :: string
  Active :: bool
  CreatedAt :: 't
  UpdatedAt :: 't
  Nodes :: "Node list"
  InstanceID :: string

record WebhookCredentials =
  wc_Type :: string
  wc_ID :: string
  wc_Name :: string

record Webhook =
  wh_ID :: string
  wh_WebhookID :: string
  wh_NodeID :: string
  wh_NodeName :: string
  wh_Method :: string
  wh_Path :: string
  wh_URL :: string
  wh_Options :: "string option"
  wh_Notes :: string
  wh_Route :: string
  wh_AuthType :: string
  wh_Credentials :: "WebhookCredentials option"
  wh_WorkflowID :: string
  wh_InstanceID :: string

record InstanceStats =
  TotalWorkflows :: nat
  ActiveWorkflows :: nat
  InactiveWorkflows :: nat
  TotalWebhooks :: nat
  ActiveWebhooks :: nat
  InactiveWebhooks :: nat
  RedisTriggers :: nat
  ScheduledTriggers :: nat

definition webhook_type :: string where
  "webhook_type = ''n8n-nodes-base.webhook''"

definition redis_type :: string where
  "redis_type = ''n8n-nodes-base.redisTrigger''"

definition schedule_type :: string where
  "schedule_type = ''n8n-nodes-base.scheduleTrigger''"


section \<open>Statistics (GetInstanceStats)\<close>

text \<open>
  The two nested \<open>for\<close> loops are two folds over the counters. The counters are Go \<open>int\<close>s that
  count elements of slices held in memory, so they cannot overflow; they are naturals here.
  The function's error result is always \<open>nil\<close>: the model returns \<open>Inr\<close> always.
\<close>

definition stats_node :: "bool \<Rightarrow> Node \<Rightarrow> InstanceStats \<Rightarrow> InstanceStats" where
  "stats_node active node stats =
     (if node_Type node = webhook_type then
        (if active
         then stats\<lparr>TotalWebhooks := TotalWebhooks stats + 1,
                    ActiveWebhooks := ActiveWebhooks stats + 1\<rparr>
         else stats\<lparr>TotalWebhooks := TotalWebhooks stats + 1,
                    InactiveWebhooks := InactiveWebhooks stats + 1\<rparr>)
      else if node_Type node = redis_type
        then stats\<lparr>RedisTriggers := RedisTriggers stats + 1\<rparr>
      else if node_Type node = schedule_type
        then stats\<lparr>ScheduledTriggers := ScheduledTriggers stats + 1\<rparr>
      else stats)"

definition stats_workflow :: "'t Workflow \<Rightarrow> InstanceStats \<Rightarrow> InstanceStats" where
  "stats_workflow workflow stats =
     fold (stats_node (Active workflow)) (Nodes workflow)
       (if Active workflow then stats\<lparr>ActiveWorkflows := ActiveWorkflows stats + 1\<rparr>
        else stats\<lparr>InactiveWorkflows := InactiveWorkflows stats + 1\<rparr>)"

definition GetInstanceStats :: "'t Workflow list \<Rightarrow> string + InstanceStats" where
  "GetInstanceStats workflows =
     Inr (fold stats_workflow workflows
       \<lparr>TotalWorkflows = length workflows, ActiveWorkflows = 0, InactiveWorkflows = 0,
        TotalWebhooks = 0, ActiveWebhooks = 0, InactiveWebhooks = 0,
        RedisTriggers = 0, ScheduledTriggers = 0\<rparr>)"

text \<open>The number of a workflow's nodes of one type, for stating what the counters hold.\<close>

definition nodes_of_type :: "string \<Rightarrow> 't Workflow \<Rightarrow> nat" where
  "nodes_of_type ty workflow = length (filter (\<lambda>node. node_Type node = ty) (Nodes workflow))"


section \<open>Due-ness (shouldCheckInstance)\<close>

text \<open>
  An instant is an integer number of nanoseconds on the wall clock. \<open>time.Now()\<close> is the
  first argument. \<open>time.Duration\<close> is a signed 64-bit count of nanoseconds, and
  \<open>time.Duration(checkInterval) * time.Minute\<close> is a 64-bit multiplication that wraps around;
  \<open>Time.Add\<close> then adds the signed value of the product.
\<close>

definition Minute :: "64 word" where
  "Minute = 60000000000"

definition shouldCheckInstance :: "int \<Rightarrow> int \<Rightarrow> 64 word \<Rightarrow> bool" where
  "shouldCheckInstance now lastCheck checkInterval =
     (let checkInterval = (if checkInterval = 0 then 5 else checkInterval);
          nextCheckTime = lastCheck + sint (checkInterval * Minute)
      in nextCheckTime < now)"


section \<open>Route labels (ExtractRoute)\<close>

text \<open>
  \<open>bufio.Scanner\<close> with its default split function \<open>ScanLines\<close> and its default buffer:
  the input is cut at every line feed, one trailing carriage return is dropped from each
  line, and a final line without line feed is delivered when it is not empty.
  The scanner's buffer grows to \<open>bufio.MaxScanTokenSize\<close> = 64 KiB and no further: a line
  that does not fit (65536 bytes or more before its line feed or before the end of the
  input) makes \<open>Scan\<close> return false with \<open>ErrTooLong\<close>, and the \<open>for scanner.Scan()\<close> loop ends
  there. \<open>ExtractRoute\<close> never looks at \<open>scanner.Err()\<close>.
\<close>

definition newline :: char where
  "newline = CHR 0x0A"

definition MaxScanTokenSize :: nat where
  "MaxScanTokenSize = 64 * 1024"

fun split_lines :: "string \<Rightarrow> string \<Rightarrow> string list" where
  "split_lines line [] = (if line = [] then [] else [rev line])"
| "split_lines line (c # cs) =
     (if c = newline then rev line # split_lines [] cs else split_lines (c # line) cs)"

definition dropCR :: "string \<Rightarrow> string" where
  "dropCR line = (if line \<noteq> [] \<and> last line = CHR 0x0D then butlast line else line)"

definition scanner_lines :: "string \<Rightarrow> string list" where
  "scanner_lines input =
     map dropCR (takeWhile (\<lambda>line. length line < MaxScanTokenSize) (split_lines [] input))"

text \<open>
  \<open>Index_after sep s\<close> cuts \<open>s\<close> at the first occurrence of \<open>sep\<close>: it is what
  \<open>strings.Contains\<close> tests and where \<open>strings.SplitN(s, sep, 2)\<close> splits.
\<close>

fun Index_after :: "string \<Rightarrow> string \<Rightarrow> (string \<times> string) option" where
  "Index_after sep [] = (if sep = [] then Some ([], []) else None)"
| "Index_after sep (c # cs) =
     (if take (length sep) (c # cs) = sep then Some ([], drop (length sep) (c # cs))
      else (case Index_after sep cs of
              None \<Rightarrow> None
            | Some (before, rest) \<Rightarrow> Some (c # before, rest)))"

definition Contains :: "string \<Rightarrow> string \<Rightarrow> bool" where
  "Contains s substr = (Index_after substr s \<noteq> None)"

definition SplitN2 :: "string \<Rightarrow> string \<Rightarrow> string list" where
  "SplitN2 s sep =
     (case Index_after sep s of None \<Rightarrow> [s] | Some (before, rest) \<Rightarrow> [before, rest])"

text \<open>
  \<open>strings.TrimSpace\<close> removes the leading and trailing white space that
  \<open>unicode.IsSpace\<close> accepts. On the bytes of a string these are the six ASCII characters
  and the UTF-8 encodings of U+0085, U+00A0, U+1680, U+2000 to U+200A, U+2028, U+2029,
  U+202F, U+205F and U+3000. Trimming stops at the first byte sequence that is none of
  them; the fuel is the length of the string, which no run of white space exceeds.
\<close>

definition space_runes :: "string list" where
  "space_runes =
     [[CHR 0x09], [CHR 0x0A], [CHR 0x0B], [CHR 0x0C], [CHR 0x0D], [CHR 0x20],
      [CHR 0xC2, CHR 0x85], [CHR 0xC2, CHR 0xA0], [CHR 0xE1, CHR 0x9A, CHR 0x80],
      [CHR 0xE2, CHR 0x80, CHR 0x80], [CHR 0xE2, CHR 0x80, CHR 0x81],
      [CHR 0xE2, CHR 0x80, CHR 0x82], [CHR 0xE2, CHR 0x80, CHR 0x83],
      [CHR 0xE2, CHR 0x80, CHR 0x84], [CHR 0xE2, CHR 0x80, CHR 0x85],
      [CHR 0xE2, CHR 0x80, CHR 0x86], [CHR 0xE2, CHR 0x80, CHR 0x87],
      [CHR 0xE2, CHR 0x80, CHR 0x88], [CHR 0xE2, CHR 0x80, CHR 0x89],
      [CHR 0xE2, CHR 0x80, CHR 0x8A], [CHR 0xE2, CHR 0x80, CHR 0xA8],
      [CHR 0xE2, CHR 0x80, CHR 0xA9], [CHR 0xE2, CHR 0x80, CHR 0xAF],
      [CHR 0xE2, CHR 0x81, CHR 0x9F], [CHR 0xE3, CHR 0x80, CHR 0x80]]"

fun strip_runes :: "string list \<Rightarrow> nat \<Rightarrow> string \<Rightarrow> string" where
  "strip_runes runes 0 s = s"
| "strip_runes runes (Suc fuel) s =
     (case List.find (\<lambda>r. take (length r) s = r) runes of
        None \<Rightarrow> s
      | Some r \<Rightarrow> strip_runes runes fuel (drop (length r) s))"

definition TrimLeft :: "string \<Rightarrow> string" where
  "TrimLeft s = strip_runes space_runes (length s) s"

definition TrimRight :: "string \<Rightarrow> string" where
  "TrimRight s = rev (strip_runes (map rev space_runes) (length s) (rev s))"

definition TrimSpace :: "string \<Rightarrow> string" where
  "TrimSpace s = TrimRight (TrimLeft s)"

fun route_loop :: "string list \<Rightarrow> string" where
  "route_loop [] = []"
| "route_loop (line # lines) =
     (if Contains line ''route:'' then
        (let parts = SplitN2 line ''route:'' in
         if 1 < length parts then TrimSpace (parts ! 1) else route_loop lines)
      else route_loop lines)"

definition ExtractRoute :: "string \<Rightarrow> string" where
  "ExtractRoute input = route_loop (scanner_lines input)"

text \<open>
  The route label as the specification words it: of the lines of the notes, take the first
  that contains the marker; the label is what follows the marker on that line, trimmed;
  the empty string when no line contains the marker. No line is too long for it.
\<close>

definition route_label_spec :: "string \<Rightarrow> string" where
  "route_label_spec notes =
     (case List.find (\<lambda>line. Contains line ''route:'') (map dropCR (split_lines [] notes)) of
        None \<Rightarrow> []
      | Some line \<Rightarrow>
          (case Index_after ''route:'' line of None \<Rightarrow> [] | Some (before, rest) \<Rightarrow> TrimSpace rest))"


section \<open>Webhook extraction (extractWebhooksFromWorkflow)\<close>

text \<open>
  \<open>for credType, cred := range node.Credentials { ...; break }\<close> keeps the entry the map
  iteration starts with. Go leaves that order unspecified, so the start index is the
  parameter \<open>start\<close> (taken modulo the number of entries): every entry can be the one kept.
\<close>

definition first_ranged :: "nat \<Rightarrow> (string \<times> NodeCredential) list \<Rightarrow> WebhookCredentials option" where
  "first_ranged start creds =
     (if creds = [] then None
      else (let (credType, cred) = creds ! (start mod length creds)
            in Some \<lparr>wc_Type = credType, wc_ID = cred_ID cred, wc_Name = cred_Name cred\<rparr>))"

definition webhook_of_node :: "(Node \<Rightarrow> nat) \<Rightarrow> 't Workflow \<Rightarrow> Node \<Rightarrow> Webhook" where
  "webhook_of_node range_start workflow node =
     \<lparr>wh_ID = node_WebhookID node,
      wh_WebhookID = [],
      wh_NodeID = node_ID node,
      wh_NodeName = node_Name node,
      wh_Method = HTTPMethod (Parameters node),
      wh_Path = Path (Parameters node),
      wh_URL = InstanceID workflow @ ''/webhook/'' @ Path (Parameters node),
      wh_Options = Options (Parameters node),
      wh_Notes = Notes node,
      wh_Route = [],
      wh_AuthType = Authentication (Parameters node),
      wh_Credentials = first_ranged (range_start node) (Credentials node),
      wh_WorkflowID = wf_ID workflow,
      wh_InstanceID = InstanceID workflow\<rparr>"

fun extract_loop :: "(Node \<Rightarrow> nat) \<Rightarrow> 't Workflow \<Rightarrow> Node list \<Rightarrow> Webhook list" where
  "extract_loop range_start workflow [] = []"
| "extract_loop range_start workflow (node # nodes) =
     (if node_Type node \<noteq> webhook_type then extract_loop range_start workflow nodes
      else webhook_of_node range_start workflow node # extract_loop range_start workflow nodes)"

definition extractWebhooksFromWorkflow :: "(Node \<Rightarrow> nat) \<Rightarrow> 't Workflow \<Rightarrow> Webhook list" where
  "extractWebhooksFromWorkflow range_start workflow =
     extract_loop range_start workflow (Nodes workflow)"


section \<open>The record store (the PocketBase application, as the code uses it)\<close>

text \<open>
  Three collections, as the migration declares them; each is the list of its records in
  the order they were inserted. Workflow and webhook records get their identity from the
  store (\<open>next_id\<close>); an instance record is identified by its \<open>ir_id\<close>. The text fields
  \<open>wr_created_at\<close> and \<open>wr_updated_at\<close> hold the timestamps the remote instance reported, as
  RFC 3339 text; the collection has no field for the time a record was inserted.

  Every operation of the store can fail. \<open>faults\<close> scripts the outcomes of the operations
  to come, one entry per operation: \<open>Some e\<close> makes the operation fail with the error text
  \<open>e\<close>, \<open>None\<close> lets it succeed, and once the script is used up every operation succeeds.

  \<open>tie_break\<close> is the store's choice among the rows that a sorted, limited query cannot
  tell apart (rows with equal sort key): the index, modulo their number, of the row it
  returns first.
\<close>

record WorkflowRecord =
  wr_id :: nat
  wr_instance :: string
  wr_workflow_name :: string
  wr_workflow_id :: string
  wr_created_at :: string
  wr_updated_at :: string
  wr_number_of_nodes :: nat
  wr_nodes :: string
  wr_workflow_data :: string
  wr_active :: bool

record WebhookRecord =
  hr_id :: nat
  hr_node_id :: string
  hr_instance :: string
  hr_workflow_id :: string
  hr_notes :: string
  hr_route :: string
  hr_workflow_name :: string
  hr_webhook_url :: string
  hr_methods :: "string list"
  hr_options :: "string option"
  hr_auth_type :: string

record InstanceRecord =
  ir_id :: string
  ir_host :: string
  ir_api_key :: string
  ir_ignore_ssl_errors :: bool
  ir_check_interval_mins :: "64 word"
  ir_last_check :: int
  ir_availability_status :: bool
  ir_availability_note :: string
  ir_workflows_active :: nat
  ir_workflows_inactive :: nat
  ir_webhooks_active :: nat
  ir_webhooks_inactive :: nat

record app =
  instances :: "InstanceRecord list"
  workflows :: "WorkflowRecord list"
  webhooks :: "WebhookRecord list"
  next_id :: nat
  faults :: "string option list"
  tie_break :: "WorkflowRecord list \<Rightarrow> nat"

definition next_fault :: "app \<Rightarrow> string option \<times> app" where
  "next_fault s = (case faults s of [] \<Rightarrow> (None, s) | f # fs \<Rightarrow> (f, s\<lparr>faults := fs\<rparr>))"

definition FindCollectionByNameOrId :: "app \<Rightarrow> string option \<times> app" where
  "FindCollectionByNameOrId s = next_fault s"

text \<open>
  \<open>FindRecordsByFilter(workflows, "workflow_id = ... && instance = ...", "-created_at", 1, 0)\<close>:
  of the rows of the pair, sorted by the text field \<open>created_at\<close> in descending order
  (bytewise, the order of strings here), the first one.
\<close>

definition for_pair :: "string \<Rightarrow> string \<Rightarrow> WorkflowRecord \<Rightarrow> bool" where
  "for_pair instanceID workflowID r =
     (wr_workflow_id r = workflowID \<and> wr_instance r = instanceID)"

definition first_by_created_at_desc ::
    "(WorkflowRecord list \<Rightarrow> nat) \<Rightarrow> WorkflowRecord list \<Rightarrow> WorkflowRecord list" where
  "first_by_created_at_desc tie rows =
     (let tops = filter (\<lambda>r. list_all (\<lambda>r'. wr_created_at r' \<le> wr_created_at r) rows) rows
      in if tops = [] then [] else [tops ! (tie tops mod length tops)])"

definition FindRecordsByFilter ::
    "string \<Rightarrow> string \<Rightarrow> app \<Rightarrow> (string + WorkflowRecord list) \<times> app" where
  "FindRecordsByFilter instanceID workflowID s =
     (case next_fault s of
        (Some err, s') \<Rightarrow> (Inl err, s')
      | (None, s') \<Rightarrow>
          (Inr (first_by_created_at_desc (tie_break s')
                  (filter (for_pair instanceID workflowID) (workflows s'))), s'))"

definition webhook_for_pair :: "string \<Rightarrow> string \<Rightarrow> WebhookRecord \<Rightarrow> bool" where
  "webhook_for_pair instanceID workflowID r =
     (hr_instance r = instanceID \<and> hr_workflow_id r = workflowID)"

definition FindAllWebhookRecords ::
    "string \<Rightarrow> string \<Rightarrow> app \<Rightarrow> (string + WebhookRecord list) \<times> app" where
  "FindAllWebhookRecords instanceID workflowID s =
     (case next_fault s of
        (Some err, s') \<Rightarrow> (Inl err, s')
      | (None, s') \<Rightarrow> (Inr (filter (webhook_for_pair instanceID workflowID) (webhooks s')), s'))"

definition FindAllInstanceRecords :: "app \<Rightarrow> (string + InstanceRecord list) \<times> app" where
  "FindAllInstanceRecords s =
     (case next_fault s of
        (Some err, s') \<Rightarrow> (Inl err, s')
      | (None, s') \<Rightarrow> (Inr (instances s'), s'))"

definition DeleteWebhookRecord :: "WebhookRecord \<Rightarrow> app \<Rightarrow> string option \<times> app" where
  "DeleteWebhookRecord record s =
     (case next_fault s of
        (Some err, s') \<Rightarrow> (Some err, s')
      | (None, s') \<Rightarrow>
          (None, s'\<lparr>webhooks := filter (\<lambda>r. hr_id r \<noteq> hr_id record) (webhooks s')\<rparr>))"

definition SaveWorkflowRecord :: "WorkflowRecord \<Rightarrow> app \<Rightarrow> string option \<times> app" where
  "SaveWorkflowRecord record s =
     (case next_fault s of
        (Some err, s') \<Rightarrow> (Some err, s')
      | (None, s') \<Rightarrow>
          (None, s'\<lparr>workflows := workflows s' @ [record\<lparr>wr_id := next_id s'\<rparr>],
                    next_id := Suc (next_id s')\<rparr>))"

definition SaveWebhookRecord :: "WebhookRecord \<Rightarrow> app \<Rightarrow> string option \<times> app" where
  "SaveWebhookRecord record s =
     (case next_fault s of
        (Some err, s') \<Rightarrow> (Some err, s')
      | (None, s') \<Rightarrow>
          (None, s'\<lparr>webhooks := webhooks s' @ [record\<lparr>hr_id := next_id s'\<rparr>],
                    next_id := Suc (next_id s')\<rparr>))"

definition SaveInstanceRecord :: "InstanceRecord \<Rightarrow> app \<Rightarrow> string option \<times> app" where
  "SaveInstanceRecord record s =
     (case next_fault s of
        (Some err, s') \<Rightarrow> (Some err, s')
      | (None, s') \<Rightarrow>
          (None, s'\<lparr>instances :=
                      map (\<lambda>r. if ir_id r = ir_id record then record else r) (instances s')\<rparr>))"


section \<open>What the process reads from outside\<close>

text \<open>
  \<open>now\<close> is the reading of \<open>time.Now()\<close> during the tick (one tick is taken at one instant);
  \<open>remote\<close> is the outcome of the HTTP exchange of \<open>GetWorkflows\<close> with an instance: the error
  text, or the decoded workflow list; \<open>RFC3339\<close> is \<open>Format(time.RFC3339)\<close>; \<open>Marshal\<close> is
  \<open>json.Marshal\<close> of a workflow; \<open>range_start\<close> is explained with \<open>first_ranged\<close>.
\<close>

record 't runtime =
  now :: int
  remote :: "Instance \<Rightarrow> string + 't Workflow list"
  RFC3339 :: "'t \<Rightarrow> string"
  Marshal :: "'t Workflow \<Rightarrow> string"
  range_start :: "Node \<Rightarrow> nat"

definition GetWorkflows :: "'t runtime \<Rightarrow> Instance \<Rightarrow> string + 't Workflow list" where
  "GetWorkflows rt instance =
     (case remote rt instance of
        Inl err \<Rightarrow> Inl err
      | Inr data \<Rightarrow> Inr (map (\<lambda>w. w\<lparr>InstanceID := inst_Id instance\<rparr>) data))"


section \<open>Webhook synchronisation (syncWebhooks)\<close>

definition getWorkflowName :: "string \<Rightarrow> string \<Rightarrow> app \<Rightarrow> string \<times> app" where
  "getWorkflowName instanceID workflowID s =
     (case FindRecordsByFilter instanceID workflowID s of
        (Inl err, s') \<Rightarrow> (workflowID, s')
      | (Inr [], s') \<Rightarrow> (workflowID, s')
      | (Inr (r # rs), s') \<Rightarrow> (wr_workflow_name r, s'))"

text \<open>
  The record one pass of the insert loop builds; the store sets \<open>hr_id\<close> when it saves it.
  \<open>methods\<close> is the one-element array of the method. \<open>json.Marshal\<close> of a string array and
  of an options object decoded from JSON cannot fail, so the two \<open>continue\<close> branches after
  it are never taken and are not modelled.
\<close>

definition webhook_record :: "Instance \<Rightarrow> 't Workflow \<Rightarrow> string \<Rightarrow> Webhook \<Rightarrow> WebhookRecord" where
  "webhook_record instance workflow workflowName webhook =
     \<lparr>hr_id = 0,
      hr_node_id = wh_NodeID webhook,
      hr_instance = inst_Id instance,
      hr_workflow_id = WorkflowID workflow,
      hr_notes = wh_Notes webhook,
      hr_route = ExtractRoute (wh_Notes webhook),
      hr_workflow_name = workflowName,
      hr_webhook_url = Host instance @ ''/webhook/'' @ wh_Path webhook,
      hr_methods = [wh_Method webhook],
      hr_options = (if wh_Options webhook \<noteq> None then wh_Options webhook else None),
      hr_auth_type = (if wh_Credentials webhook \<noteq> None then wh_AuthType webhook else [])\<rparr>"

fun delete_loop :: "WebhookRecord list \<Rightarrow> app \<Rightarrow> string option \<times> app" where
  "delete_loop [] s = (None, s)"
| "delete_loop (record # records) s =
     (case DeleteWebhookRecord record s of
        (Some err, s') \<Rightarrow> (Some err, s')
      | (None, s') \<Rightarrow> delete_loop records s')"

text \<open>A webhook whose save fails is logged and skipped: the loop goes on either way.\<close>

fun insert_loop :: "Instance \<Rightarrow> 't Workflow \<Rightarrow> Webhook list \<Rightarrow> app \<Rightarrow> app" where
  "insert_loop instance workflow [] s = s"
| "insert_loop instance workflow (webhook # rest) s =
     (case getWorkflowName (inst_Id instance) (WorkflowID workflow) s of
        (workflowName, s1) \<Rightarrow>
          insert_loop instance workflow rest
            (snd (SaveWebhookRecord (webhook_record instance workflow workflowName webhook) s1)))"

definition syncWebhooks ::
    "(Node \<Rightarrow> nat) \<Rightarrow> Instance \<Rightarrow> 't Workflow \<Rightarrow> app \<Rightarrow> string option \<times> app" where
  "syncWebhooks start instance workflow s =
     (case FindCollectionByNameOrId s of
        (Some err, s1) \<Rightarrow> (Some err, s1)
      | (None, s1) \<Rightarrow>
          (case FindAllWebhookRecords (inst_Id instance) (WorkflowID workflow) s1 of
             (Inl err, s2) \<Rightarrow> (Some err, s2)
           | (Inr records, s2) \<Rightarrow>
               (case delete_loop records s2 of
                  (Some err, s3) \<Rightarrow> (Some err, s3)
                | (None, s3) \<Rightarrow>
                    (None, insert_loop instance workflow
                             (extractWebhooksFromWorkflow start workflow) s3))))"


section \<open>Workflow synchronisation (n8n/workflow.go)\<close>

fun Join :: "string list \<Rightarrow> string \<Rightarrow> string" where
  "Join [] sep = []"
| "Join [x] sep = x"
| "Join (x # y # ys) sep = x @ sep @ Join (y # ys) sep"

definition getNodeNames :: "Node list \<Rightarrow> string list" where
  "getNodeNames nodes = map node_Name nodes"

definition createWorkflowRecord :: "'t runtime \<Rightarrow> Instance \<Rightarrow> 't Workflow \<Rightarrow> WorkflowRecord" where
  "createWorkflowRecord rt instance workflow =
     \<lparr>wr_id = 0,
      wr_instance = inst_Id instance,
      wr_workflow_name = wf_Name workflow,
      wr_workflow_id = WorkflowID workflow,
      wr_created_at = RFC3339 rt (CreatedAt workflow),
      wr_updated_at = RFC3339 rt (UpdatedAt workflow),
      wr_number_of_nodes = length (Nodes workflow),
      wr_nodes = Join (getNodeNames (Nodes workflow)) '','',
      wr_workflow_data = Marshal rt workflow,
      wr_active = Active workflow\<rparr>"

text \<open>
  \<open>needsUpdate\<close> starts out true and is cleared only when the lookup succeeds, returns a
  record, and that record agrees with the remote workflow on the three fields.
\<close>

definition needsUpdate :: "'t runtime \<Rightarrow> 't Workflow \<Rightarrow> string + WorkflowRecord list \<Rightarrow> bool" where
  "needsUpdate rt workflow found =
     (case found of
        Inl err \<Rightarrow> True
      | Inr [] \<Rightarrow> True
      | Inr (existing # others) \<Rightarrow>
          \<not> (wr_created_at existing = RFC3339 rt (CreatedAt workflow) \<and>
             wr_updated_at existing = RFC3339 rt (UpdatedAt workflow) \<and>
             wr_active existing = Active workflow))"

text \<open>
  The body of the loop of \<open>syncWorkflows\<close>. A failed save of the snapshot is logged and the
  loop continues with the next workflow; an error of \<open>syncWebhooks\<close> is logged only.
\<close>

definition syncWorkflows_step :: "'t runtime \<Rightarrow> Instance \<Rightarrow> 't Workflow \<Rightarrow> app \<Rightarrow> app" where
  "syncWorkflows_step rt instance workflow s =
     (case FindRecordsByFilter (inst_Id instance) (WorkflowID workflow) s of
        (found, s1) \<Rightarrow>
          (if needsUpdate rt workflow found then
             (case SaveWorkflowRecord (createWorkflowRecord rt instance workflow) s1 of
                (Some err, s2) \<Rightarrow> s2
              | (None, s2) \<Rightarrow> snd (syncWebhooks (range_start rt) instance workflow s2))
           else s1))"

fun syncWorkflows_loop :: "'t runtime \<Rightarrow> Instance \<Rightarrow> 't Workflow list \<Rightarrow> app \<Rightarrow> app" where
  "syncWorkflows_loop rt instance [] s = s"
| "syncWorkflows_loop rt instance (workflow # rest) s =
     syncWorkflows_loop rt instance rest (syncWorkflows_step rt instance workflow s)"

definition syncWorkflows ::
    "'t runtime \<Rightarrow> Instance \<Rightarrow> 't Workflow list \<Rightarrow> app \<Rightarrow> string option \<times> app" where
  "syncWorkflows rt instance wfs s =
     (case FindCollectionByNameOrId s of
        (Some err, s1) \<Rightarrow> (Some (''failed to find workflows collection: '' @ err), s1)
      | (None, s1) \<Rightarrow> (None, syncWorkflows_loop rt instance wfs s1))"


section \<open>One instance, and one tick of the scheduler (syncInstance, InitCronJobs)\<close>

text \<open>
  A date field of the store keeps milliseconds: \<open>DateTime\<close> is the instant as the store
  returns it after \<open>record.Set("last_check", time.Now())\<close> and a save.
\<close>

definition DateTime :: "int \<Rightarrow> int" where
  "DateTime t = t - t mod 1000000"

text \<open>
  \<open>syncInstance\<close> returns its error, the record as it has set its fields so far (the
  caller holds the same record and sets further fields on it), and the store.
\<close>

definition syncInstance ::
    "'t runtime \<Rightarrow> Instance \<Rightarrow> InstanceRecord \<Rightarrow> app \<Rightarrow> string option \<times> InstanceRecord \<times> app" where
  "syncInstance rt instance record s =
     (case GetWorkflows rt instance of
        Inl err \<Rightarrow> (Some (''failed to get workflows: '' @ err), record, s)
      | Inr wfs \<Rightarrow>
          (case GetInstanceStats wfs of
             Inl err \<Rightarrow> (Some (''failed to calculate instance statistics: '' @ err), record, s)
           | Inr stats \<Rightarrow>
               (let s1 = snd (syncWorkflows rt instance wfs s);
                    record' = record
                      \<lparr>ir_workflows_active := ActiveWorkflows stats,
                       ir_workflows_inactive := InactiveWorkflows stats,
                       ir_webhooks_active := ActiveWebhooks stats,
                       ir_webhooks_inactive := InactiveWebhooks stats,
                       ir_last_check := DateTime (now rt),
                       ir_availability_status := True,
                       ir_availability_note := []\<rparr>
                in (case SaveInstanceRecord record' s1 of
                      (Some err, s2) \<Rightarrow>
                        (Some (''failed to update instance record: '' @ err), record', s2)
                    | (None, s2) \<Rightarrow> (None, record', s2)))))"

definition instance_of_record :: "InstanceRecord \<Rightarrow> Instance" where
  "instance_of_record record =
     (NewInstance (ir_id record) (ir_host record) (ir_api_key record))
       \<lparr>CheckInterval := ir_check_interval_mins record,
        IgnoreSSLErrors := ir_ignore_ssl_errors record\<rparr>"

text \<open>The three fields the scheduled function sets on the record of a failed pass.\<close>

definition mark_unavailable :: "'t runtime \<Rightarrow> InstanceRecord \<Rightarrow> string \<Rightarrow> InstanceRecord" where
  "mark_unavailable rt record err =
     record\<lparr>ir_last_check := DateTime (now rt),
            ir_availability_status := False,
            ir_availability_note := err\<rparr>"

text \<open>
  The loop of the scheduled function over the instance records it has read. An instance
  that is not due is passed over; for one whose \<open>syncInstance\<close> returns an error, the error
  is written to the record, the record is saved (a failure of that save is logged), and the
  loop goes on.
\<close>

fun instances_loop :: "'t runtime \<Rightarrow> InstanceRecord list \<Rightarrow> app \<Rightarrow> app" where
  "instances_loop rt [] s = s"
| "instances_loop rt (record # rest) s =
     (if \<not> shouldCheckInstance (now rt) (ir_last_check record) (ir_check_interval_mins record)
      then instances_loop rt rest s
      else
        (case syncInstance rt (instance_of_record record) record s of
           (None, record', s') \<Rightarrow> instances_loop rt rest s'
         | (Some err, record', s') \<Rightarrow>
             instances_loop rt rest
               (snd (SaveInstanceRecord (mark_unavailable rt record' err) s'))))"

definition check_instances :: "'t runtime \<Rightarrow> app \<Rightarrow> app" where
  "check_instances rt s =
     (case FindAllInstanceRecords s of
        (Inl err, s') \<Rightarrow> s'
      | (Inr records, s') \<Rightarrow> instances_loop rt records s')"


section \<open>Notions of the specification\<close>

text \<open>
  What the store makes of a batch of records inserted one after the other: it numbers
  them from its next free identity.
\<close>

fun number_from :: "nat \<Rightarrow> WebhookRecord list \<Rightarrow> WebhookRecord list" where
  "number_from n [] = []"
| "number_from n (r # rs) = r\<lparr>hr_id := n\<rparr> # number_from (Suc n) rs"

text \<open>
  The workflow name \<open>getWorkflowName\<close> reads when the store answers: the name on the record
  its lookup returns, the workflow id when there is none.
\<close>

definition current_name :: "string \<Rightarrow> string \<Rightarrow> app \<Rightarrow> string" where
  "current_name instanceID workflowID s =
     (case first_by_created_at_desc (tie_break s)
             (filter (for_pair instanceID workflowID) (workflows s)) of
        [] \<Rightarrow> workflowID
      | r # rs \<Rightarrow> wr_workflow_name r)"

text \<open>
  The most recent stored snapshot of a pair, in the specification's sense: the record of
  the pair that was inserted last (none when the pair has no record).
\<close>

definition most_recent :: "string \<Rightarrow> string \<Rightarrow> app \<Rightarrow> WorkflowRecord list" where
  "most_recent instanceID workflowID s =
     (let rows = filter (for_pair instanceID workflowID) (workflows s)
      in if rows = [] then [] else [last rows])"

text \<open>
  The triple of the claim. The snapshot holds the two timestamps as RFC 3339 text (to the
  second, with the zone offset), so the remote workflow's timestamps are compared in that
  form: that is how the code compares them.
\<close>

definition triple_differs :: "'t runtime \<Rightarrow> 't Workflow \<Rightarrow> WorkflowRecord \<Rightarrow> bool" where
  "triple_differs rt workflow r =
     (wr_created_at r \<noteq> RFC3339 rt (CreatedAt workflow) \<or>
      wr_updated_at r \<noteq> RFC3339 rt (UpdatedAt workflow) \<or>
      wr_active r \<noteq> Active workflow)"

text \<open>The change decision of the specification: new, or different from the most recent snapshot.\<close>

definition changed :: "'t runtime \<Rightarrow> Instance \<Rightarrow> 't Workflow \<Rightarrow> app \<Rightarrow> bool" where
  "changed rt instance workflow s =
     (case most_recent (inst_Id instance) (WorkflowID workflow) s of
        [] \<Rightarrow> True
      | r # rs \<Rightarrow> triple_differs rt workflow r)"

text \<open>The snapshot of a workflow as the store holds it once saved.\<close>

definition snapshot :: "'t runtime \<Rightarrow> Instance \<Rightarrow> 't Workflow \<Rightarrow> app \<Rightarrow> WorkflowRecord" where
  "snapshot rt instance workflow s =
     (createWorkflowRecord rt instance workflow)\<lparr>wr_id := next_id s\<rparr>"


text \<open>The store after one reconciliation pass for the instance of a record.\<close>

definition reconcile :: "'t runtime \<Rightarrow> InstanceRecord \<Rightarrow> app \<Rightarrow> app" where
  "reconcile rt record s = snd (snd (syncInstance rt (instance_of_record record) record s))"

section \<open>Example data\<close>

text \<open>
  A workflow with two webhook-trigger nodes on instance \<open>i1\<close>, a second instance \<open>i0\<close> whose
  fetch fails, and a store that already holds a webhook record of an earlier version of the
  workflow. In the examples a timestamp is its own RFC 3339 text.
\<close>

definition ex_hook_A :: Node where
  "ex_hook_A =
     \<lparr>node_ID = ''A'', node_Name = ''Orders'', node_Type = webhook_type,
      Parameters = \<lparr>HTTPMethod = ''POST'', Path = ''orders'', Authentication = ''basicAuth'',
                    Options = None\<rparr>,
      Credentials = [(''httpBasicAuth'', \<lparr>cred_ID = ''1'', cred_Name = ''basic''\<rparr>),
                     (''httpHeaderAuth'', \<lparr>cred_ID = ''2'', cred_Name = ''header''\<rparr>)],
      node_WebhookID = ''wa'', Notes = ''route: /o''\<rparr>"

definition ex_hook_B :: Node where
  "ex_hook_B =
     \<lparr>node_ID = ''B'', node_Name = ''Ping'', node_Type = webhook_type,
      Parameters = \<lparr>HTTPMethod = ''GET'', Path = ''ping'', Authentication = ''none'',
                    Options = Some ''{}''\<rparr>,
      Credentials = [], node_WebhookID = ''wb'', Notes = []\<rparr>"

definition ex_workflow :: "string Workflow" where
  "ex_workflow =
     \<lparr>wf_ID = [], wf_Name = ''Shop'', WorkflowID = ''w1'', Active = True,
      CreatedAt = ''2024-01-01T00:00:00Z'', UpdatedAt = ''2024-03-01T00:00:00Z'',
      Nodes = [ex_hook_A, ex_hook_B], InstanceID = ''i1''\<rparr>"

definition ex_instance :: Instance where
  "ex_instance = NewInstance ''i1'' ''https://n8n.example'' ''key''"

definition ex_rt :: "string runtime" where
  "ex_rt =
     \<lparr>now = 1700000600000000000,
      remote = (\<lambda>instance. if inst_Id instance = ''i0'' then Inl ''error making request: timeout''
                            else Inr [ex_workflow]),
      RFC3339 = (\<lambda>t. t), Marshal = (\<lambda>w. ''{}''), range_start = (\<lambda>node. 0)\<rparr>"

definition ex_snapshot :: "string \<Rightarrow> string \<Rightarrow> WorkflowRecord" where
  "ex_snapshot created updated =
     \<lparr>wr_id = 0, wr_instance = ''i1'', wr_workflow_name = ''Shop'', wr_workflow_id = ''w1'',
      wr_created_at = created, wr_updated_at = updated, wr_number_of_nodes = 2,
      wr_nodes = ''Orders,Ping'', wr_workflow_data = ''{}'', wr_active = True\<rparr>"

definition ex_stale :: WebhookRecord where
  "ex_stale =
     \<lparr>hr_id = 1, hr_node_id = ''Z'', hr_instance = ''i1'', hr_workflow_id = ''w1'',
      hr_notes = [], hr_route = [], hr_workflow_name = ''Shop'',
      hr_webhook_url = ''https://n8n.example/webhook/old'', hr_methods = [''GET''],
      hr_options = None, hr_auth_type = []\<rparr>"

definition ex_record :: "string \<Rightarrow> InstanceRecord" where
  "ex_record ident =
     \<lparr>ir_id = ident, ir_host = ''https://n8n.example'', ir_api_key = ''key'',
      ir_ignore_ssl_errors = False, ir_check_interval_mins = 5,
      ir_last_check = 1700000000000000000, ir_availability_status = True,
      ir_availability_note = [], ir_workflows_active = 0, ir_workflows_inactive = 0,
      ir_webhooks_active = 0, ir_webhooks_inactive = 0\<rparr>"

definition ex_store :: "WorkflowRecord list \<Rightarrow> string option list \<Rightarrow> app" where
  "ex_store snapshots script =
     \<lparr>instances = [ex_record ''i0'', ex_record ''i1''], workflows = snapshots,
      webhooks = [ex_stale], next_id = 2, faults = script, tie_break = (\<lambda>rows. 0)\<rparr>"

definition ex_fleet :: "string Workflow list" where
  "ex_fleet =
     [ex_workflow, ex_workflow, ex_workflow,
      ex_workflow\<lparr>Active := False, Nodes := [ex_hook_B]\<rparr>,
      ex_workflow\<lparr>Active := False, Nodes := [ex_hook_B]\<rparr>]"

definition ex_notes :: string where
  "ex_notes = ''desc'' @ [newline] @ ''route: /users/{id}'' @ [newline] @ ''more''"

definition ex_long_notes :: string where
  "ex_long_notes = replicate 65536 (CHR ''a'') @ newline # ''route: x''"


section \<open>Statistics: what the counters hold\<close>

lemma fold_stats_node:
  "TotalWorkflows (fold (stats_node a) ns st) = TotalWorkflows st"
  "ActiveWorkflows (fold (stats_node a) ns st) = ActiveWorkflows st"
  "InactiveWorkflows (fold (stats_node a) ns st) = InactiveWorkflows st"
  "TotalWebhooks (fold (stats_node a) ns st) =
     TotalWebhooks st + length (filter (\<lambda>n. node_Type n = webhook_type) ns)"
  "ActiveWebhooks (fold (stats_node a) ns st) =
     ActiveWebhooks st + (if a then length (filter (\<lambda>n. node_Type n = webhook_type) ns) else 0)"
  "InactiveWebhooks (fold (stats_node a) ns st) =
     InactiveWebhooks st + (if a then 0 else length (filter (\<lambda>n. node_Type n = webhook_type) ns))"
  "RedisTriggers (fold (stats_node a) ns st) =
     RedisTriggers st + length (filter (\<lambda>n. node_Type n = redis_type) ns)"
  "ScheduledTriggers (fold (stats_node a) ns st) =
     ScheduledTriggers st + length (filter (\<lambda>n. node_Type n = schedule_type) ns)"
  by (induction ns arbitrary: st;
      simp add: stats_node_def webhook_type_def redis_type_def schedule_type_def)+

lemma stats_workflow_fields:
  "TotalWorkflows (stats_workflow w st) = TotalWorkflows st"
  "ActiveWorkflows (stats_workflow w st) = ActiveWorkflows st + (if Active w then 1 else 0)"
  "InactiveWorkflows (stats_workflow w st) = InactiveWorkflows st + (if Active w then 0 else 1)"
  "TotalWebhooks (stats_workflow w st) = TotalWebhooks st + nodes_of_type webhook_type w"
  "ActiveWebhooks (stats_workflow w st) =
     ActiveWebhooks st + (if Active w then nodes_of_type webhook_type w else 0)"
  "InactiveWebhooks (stats_workflow w st) =
     InactiveWebhooks st + (if Active w then 0 else nodes_of_type webhook_type w)"
  "RedisTriggers (stats_workflow w st) = RedisTriggers st + nodes_of_type redis_type w"
  "ScheduledTriggers (stats_workflow w st) = ScheduledTriggers st + nodes_of_type schedule_type w"
  by (simp_all add: stats_workflow_def fold_stats_node nodes_of_type_def)

lemma fold_stats_workflow:
  "TotalWorkflows (fold stats_workflow ws st) = TotalWorkflows st"
  "ActiveWorkflows (fold stats_workflow ws st) = ActiveWorkflows st + length (filter Active ws)"
  "InactiveWorkflows (fold stats_workflow ws st) =
     InactiveWorkflows st + length (filter (\<lambda>w. \<not> Active w) ws)"
  "TotalWebhooks (fold stats_workflow ws st) =
     TotalWebhooks st + (\<Sum>w\<leftarrow>ws. nodes_of_type webhook_type w)"
  "ActiveWebhooks (fold stats_workflow ws st) =
     ActiveWebhooks st + (\<Sum>w\<leftarrow>filter Active ws. nodes_of_type webhook_type w)"
  "InactiveWebhooks (fold stats_workflow ws st) =
     InactiveWebhooks st + (\<Sum>w\<leftarrow>filter (\<lambda>w. \<not> Active w) ws. nodes_of_type webhook_type w)"
  "RedisTriggers (fold stats_workflow ws st) =
     RedisTriggers st + (\<Sum>w\<leftarrow>ws. nodes_of_type redis_type w)"
  "ScheduledTriggers (fold stats_workflow ws st) =
     ScheduledTriggers st + (\<Sum>w\<leftarrow>ws. nodes_of_type schedule_type w)"
  by (induction ws arbitrary: st; simp add: stats_workflow_fields)+

lemma GetInstanceStats_closed_form:
  "GetInstanceStats ws =
     Inr \<lparr>TotalWorkflows = length ws,
          ActiveWorkflows = length (filter Active ws),
          InactiveWorkflows = length (filter (\<lambda>w. \<not> Active w) ws),
          TotalWebhooks = (\<Sum>w\<leftarrow>ws. nodes_of_type webhook_type w),
          ActiveWebhooks = (\<Sum>w\<leftarrow>filter Active ws. nodes_of_type webhook_type w),
          InactiveWebhooks = (\<Sum>w\<leftarrow>filter (\<lambda>w. \<not> Active w) ws. nodes_of_type webhook_type w),
          RedisTriggers = (\<Sum>w\<leftarrow>ws. nodes_of_type redis_type w),
          ScheduledTriggers = (\<Sum>w\<leftarrow>ws. nodes_of_type schedule_type w)\<rparr>"
  unfolding GetInstanceStats_def
  by (simp, rule InstanceStats.equality) (simp_all add: fold_stats_workflow)

lemma sum_list_const_all:
  "list_all (\<lambda>x. f x = (c::nat)) xs \<Longrightarrow> (\<Sum>x\<leftarrow>xs. f x) = length xs * c"
  by (induction xs) auto

lemma sum_list_split:
  "(\<Sum>x\<leftarrow>xs. (f x :: nat)) =
     (\<Sum>x\<leftarrow>filter P xs. f x) + (\<Sum>x\<leftarrow>filter (\<lambda>x. \<not> P x) xs. f x)"
  by (induction xs) auto

lemma webhooks_of_fleet:
  assumes "list_all (\<lambda>w. nodes_of_type webhook_type w = (if Active w then a else b)) ws"
  shows "(\<Sum>w\<leftarrow>filter Active ws. nodes_of_type webhook_type w) = length (filter Active ws) * a"
    and "(\<Sum>w\<leftarrow>filter (\<lambda>w. \<not> Active w) ws. nodes_of_type webhook_type w) =
           length (filter (\<lambda>w. \<not> Active w) ws) * b"
proof -
  have "list_all (\<lambda>w. nodes_of_type webhook_type w = a) (filter Active ws)"
    using assms by (induction ws) auto
  then show "(\<Sum>w\<leftarrow>filter Active ws. nodes_of_type webhook_type w) = length (filter Active ws) * a"
    by (rule sum_list_const_all)
  have "list_all (\<lambda>w. nodes_of_type webhook_type w = b) (filter (\<lambda>w. \<not> Active w) ws)"
    using assms by (induction ws) auto
  then show "(\<Sum>w\<leftarrow>filter (\<lambda>w. \<not> Active w) ws. nodes_of_type webhook_type w) =
               length (filter (\<lambda>w. \<not> Active w) ws) * b"
    by (rule sum_list_const_all)
qed

text \<open>
  C8. For every workflow list, \<open>GetInstanceStats\<close> returns (never an error, and without
  touching the store, which is not among its arguments): the number of workflows; the
  numbers of active and of inactive workflows; the number of webhook-trigger nodes in all
  workflows, in the active ones and in the inactive ones; the number of queue-trigger
  (\<open>redisTrigger\<close>) nodes and the number of schedule-trigger nodes. In particular, whenever
  three workflows are active with two webhook nodes each and two are inactive with one
  webhook node each, it reports 3 and 2 workflows and 6, 2 and 8 webhooks.
\<close>

theorem GetInstanceStats_counts:
  "GetInstanceStats ws =
     Inr \<lparr>TotalWorkflows = length ws,
          ActiveWorkflows = length (filter Active ws),
          InactiveWorkflows = length (filter (\<lambda>w. \<not> Active w) ws),
          TotalWebhooks = (\<Sum>w\<leftarrow>ws. nodes_of_type webhook_type w),
          ActiveWebhooks = (\<Sum>w\<leftarrow>filter Active ws. nodes_of_type webhook_type w),
          InactiveWebhooks = (\<Sum>w\<leftarrow>filter (\<lambda>w. \<not> Active w) ws. nodes_of_type webhook_type w),
          RedisTriggers = (\<Sum>w\<leftarrow>ws. nodes_of_type redis_type w),
          ScheduledTriggers = (\<Sum>w\<leftarrow>ws. nodes_of_type schedule_type w)\<rparr> \<and>
   (length (filter Active ws) = 3 \<and> length (filter (\<lambda>w. \<not> Active w) ws) = 2 \<and>
    list_all (\<lambda>w. nodes_of_type webhook_type w = (if Active w then 2 else 1)) ws \<longrightarrow>
      (\<exists>st. GetInstanceStats ws = Inr st \<and>
            ActiveWorkflows st = 3 \<and> InactiveWorkflows st = 2 \<and>
            ActiveWebhooks st = 6 \<and> InactiveWebhooks st = 2 \<and> TotalWebhooks st = 8))"
proof (intro conjI impI)
  show "GetInstanceStats ws =
     Inr \<lparr>TotalWorkflows = length ws,
          ActiveWorkflows = length (filter Active ws),
          InactiveWorkflows = length (filter (\<lambda>w. \<not> Active w) ws),
          TotalWebhooks = (\<Sum>w\<leftarrow>ws. nodes_of_type webhook_type w),
          ActiveWebhooks = (\<Sum>w\<leftarrow>filter Active ws. nodes_of_type webhook_type w),
          InactiveWebhooks = (\<Sum>w\<leftarrow>filter (\<lambda>w. \<not> Active w) ws. nodes_of_type webhook_type w),
          RedisTriggers = (\<Sum>w\<leftarrow>ws. nodes_of_type redis_type w),
          ScheduledTriggers = (\<Sum>w\<leftarrow>ws. nodes_of_type schedule_type w)\<rparr>"
    by (rule GetInstanceStats_closed_form)
next
  assume h: "length (filter Active ws) = 3 \<and> length (filter (\<lambda>w. \<not> Active w) ws) = 2 \<and>
    list_all (\<lambda>w. nodes_of_type webhook_type w = (if Active w then 2 else 1)) ws"
  then have fleet: "list_all (\<lambda>w. nodes_of_type webhook_type w = (if Active w then 2 else 1)) ws"
    by simp
  have act: "(\<Sum>w\<leftarrow>filter Active ws. nodes_of_type webhook_type w) = 6"
    using webhooks_of_fleet(1)[OF fleet] h by simp
  have inact: "(\<Sum>w\<leftarrow>filter (\<lambda>w. \<not> Active w) ws. nodes_of_type webhook_type w) = 2"
    using webhooks_of_fleet(2)[OF fleet] h by simp
  have total: "(\<Sum>w\<leftarrow>ws. nodes_of_type webhook_type w) = 8"
    using sum_list_split[where f = "nodes_of_type webhook_type" and P = Active and xs = ws] act inact
    by simp
  show "\<exists>st. GetInstanceStats ws = Inr st \<and>
            ActiveWorkflows st = 3 \<and> InactiveWorkflows st = 2 \<and>
            ActiveWebhooks st = 6 \<and> InactiveWebhooks st = 2 \<and> TotalWebhooks st = 8"
    using h act inact total by (simp add: GetInstanceStats_closed_form)
qed

theorem GetInstanceStats_counts_witness:
  "length (filter Active ex_fleet) = 3 \<and> length (filter (\<lambda>w. \<not> Active w) ex_fleet) = 2 \<and>
   list_all (\<lambda>w. nodes_of_type webhook_type w = (if Active w then 2 else 1)) ex_fleet \<and>
   GetInstanceStats ex_fleet =
     Inr \<lparr>TotalWorkflows = 5, ActiveWorkflows = 3, InactiveWorkflows = 2,
          TotalWebhooks = 8, ActiveWebhooks = 6, InactiveWebhooks = 2,
          RedisTriggers = 0, ScheduledTriggers = 0\<rparr>"
  using GetInstanceStats_counts [of ex_fleet]
  by (simp add: ex_fleet_def ex_workflow_def ex_hook_A_def ex_hook_B_def nodes_of_type_def
        webhook_type_def redis_type_def schedule_type_def)


section \<open>Due-ness\<close>

lemma sint_Minute_mult:
  assumes "- 153722867 \<le> sint ci" and "sint ci \<le> 153722867"
  shows "sint (ci * Minute) = sint ci * 60000000000"
proof -
  have m: "sint Minute = 60000000000"
    by (simp add: Minute_def)
  have lo: "- (2 ^ 63) \<le> sint ci * 60000000000"
    using assms(1) by simp
  have hi: "sint ci * 60000000000 < 2 ^ 63"
    using assms(2) by simp
  have "sint (ci * Minute) = signed_take_bit 63 (sint ci * sint Minute)"
    by (simp add: sint_word_ariths word_size)
  also have "\<dots> = sint ci * 60000000000"
    unfolding m using lo hi by (simp add: signed_take_bit_int_eq_self)
  finally show ?thesis .
qed

lemma shouldCheckInstance_in_range:
  assumes "- 153722867 \<le> sint ci" and "sint ci \<le> 153722867"
  shows "shouldCheckInstance t lc ci \<longleftrightarrow>
           lc + (if ci = 0 then 5 else sint ci) * 60000000000 < t"
proof (cases "ci = 0")
  case True
  have "sint ((5::64 word) * Minute) = 5 * 60000000000"
    by (simp add: Minute_def)
  then show ?thesis using True by (simp add: shouldCheckInstance_def)
next
  case False
  then show ?thesis
    using sint_Minute_mult[OF assms] by (simp add: shouldCheckInstance_def)
qed

lemma loop_not_due:
  "\<not> shouldCheckInstance (now rt) (ir_last_check r) (ir_check_interval_mins r) \<Longrightarrow>
     instances_loop rt (r # rest) s = instances_loop rt rest s"
  by simp

text \<open>
  C9, as the claim states it, fails for an interval whose nanosecond count does not fit
  64 bits: 153722868 minutes (about 292 years) times 60000000000 wraps around to a
  negative duration, and an instance checked one minute ago is due again, although the
  current time is not after the last check plus the interval.
\<close>

theorem shouldCheckInstance_overflow_counterexample:
  "shouldCheckInstance 1700000060000000000 1700000000000000000 153722868 \<and>
   \<not> (1700000000000000000 + sint (153722868 :: 64 word) * 60000000000
        < (1700000060000000000 :: int))"
  by (simp add: shouldCheckInstance_def Minute_def)

text \<open>
  C9, amended. For every instance whose configured interval is between -153722867 and
  153722867 minutes (the range in which its nanosecond count fits a signed 64-bit
  duration), the instance is due if and only if the current time is strictly after
  \<open>last_check\<close> plus the interval in minutes, where an interval of zero (or unset) counts as
  five minutes. An instance that is not due is passed over: the loop of the tick goes on to
  the remaining instances with the store as it was. With an interval of five minutes, an
  instance last checked four minutes ago is not due and one last checked six minutes ago
  is.
\<close>

theorem shouldCheckInstance_due:
  "(- 153722867 \<le> sint ci \<and> sint ci \<le> 153722867 \<longrightarrow>
      (shouldCheckInstance t lc ci \<longleftrightarrow> lc + (if ci = 0 then 5 else sint ci) * 60000000000 < t)) \<and>
   (\<not> shouldCheckInstance (now rt) (ir_last_check r) (ir_check_interval_mins r) \<longrightarrow>
      instances_loop rt (r # rest) s = instances_loop rt rest s) \<and>
   \<not> shouldCheckInstance t (t - 4 * 60000000000) 5 \<and>
   shouldCheckInstance t (t - 6 * 60000000000) 5"
proof (intro conjI impI)
  assume "- 153722867 \<le> sint ci \<and> sint ci \<le> 153722867"
  then show "shouldCheckInstance t lc ci \<longleftrightarrow>
               lc + (if ci = 0 then 5 else sint ci) * 60000000000 < t"
    using shouldCheckInstance_in_range[of ci t lc] by simp
next
  assume "\<not> shouldCheckInstance (now rt) (ir_last_check r) (ir_check_interval_mins r)"
  then show "instances_loop rt (r # rest) s = instances_loop rt rest s"
    by (rule loop_not_due)
next
  show "\<not> shouldCheckInstance t (t - 4 * 60000000000) 5"
    by (simp add: shouldCheckInstance_def Minute_def)
next
  show "shouldCheckInstance t (t - 6 * 60000000000) 5"
    by (simp add: shouldCheckInstance_def Minute_def)
qed

theorem shouldCheckInstance_due_witness:
  "- 153722867 \<le> sint (10 :: 64 word) \<and> sint (10 :: 64 word) \<le> 153722867 \<and>
   shouldCheckInstance 1700000600000000000 1700000000000000000 10 =
     (1700000000000000000 + 10 * 60000000000 < (1700000600000000000 :: int)) \<and>
   \<not> shouldCheckInstance (now ex_rt)
        (ir_last_check ((ex_record ''i1'')\<lparr>ir_last_check := 1700000360000000000\<rparr>))
        (ir_check_interval_mins ((ex_record ''i1'')\<lparr>ir_last_check := 1700000360000000000\<rparr>)) \<and>
   instances_loop ex_rt [(ex_record ''i1'')\<lparr>ir_last_check := 1700000360000000000\<rparr>]
       (ex_store [] []) = ex_store [] []"
  using shouldCheckInstance_due
    [of 10 1700000600000000000 1700000000000000000 ex_rt
        "(ex_record ''i1'')\<lparr>ir_last_check := 1700000360000000000\<rparr>" "[]" "ex_store [] []"]
  by (simp add: ex_rt_def ex_record_def shouldCheckInstance_def Minute_def)


section \<open>Route labels\<close>

lemma route_loop_find:
  "route_loop ls =
     (case List.find (\<lambda>line. Contains line ''route:'') ls of
        None \<Rightarrow> []
      | Some line \<Rightarrow>
          (case Index_after ''route:'' line of None \<Rightarrow> [] | Some (before, rest) \<Rightarrow> TrimSpace rest))"
proof (induction ls)
  case Nil
  show ?case by simp
next
  case (Cons l ls)
  show ?case
  proof (cases "Index_after ''route:'' l")
    case None
    then show ?thesis using Cons.IH by (simp add: Contains_def)
  next
    case (Some p)
    then show ?thesis
      by (cases p) (simp add: Contains_def SplitN2_def)
  qed
qed

lemma scanner_lines_short:
  assumes "list_all (\<lambda>line. length line < MaxScanTokenSize) (split_lines [] notes)"
  shows "scanner_lines notes = map dropCR (split_lines [] notes)"
proof -
  have tw: "takeWhile (\<lambda>line. length line < MaxScanTokenSize) (split_lines [] notes)
              = split_lines [] notes"
    by (rule takeWhile_eq_all_conv[THEN iffD2]) (use assms in \<open>simp add: list_all_iff\<close>)
  show ?thesis unfolding scanner_lines_def tw ..
qed

lemma split_lines_first:
  "newline \<notin> set l \<Longrightarrow>
     split_lines acc (l @ newline # rest) = (rev acc @ l) # split_lines [] rest"
  by (induction l arbitrary: acc) auto

lemma Index_after_replicate:
  assumes "sep \<noteq> []" and "hd sep \<noteq> c"
  shows "Index_after sep (replicate n c) = None"
proof (induction n)
  case 0
  show ?case using assms by simp
next
  case (Suc n)
  have "take (length sep) (c # replicate n c) \<noteq> sep"
  proof
    assume "take (length sep) (c # replicate n c) = sep"
    then have "hd (take (length sep) (c # replicate n c)) = hd sep" by simp
    moreover have "0 < length sep" using assms(1) by simp
    ultimately show False using assms(2) by (cases "length sep") simp_all
  qed
  then show ?case using Suc by simp
qed

lemma long_line_code: "ExtractRoute ex_long_notes = []"
proof -
  have "split_lines [] (replicate 65536 (CHR ''a'') @ newline # ''route: x'')
          = replicate 65536 (CHR ''a'') # split_lines [] ''route: x''"
    using split_lines_first[of "replicate 65536 (CHR ''a'')" "[]" "''route: x''"]
    by (simp add: newline_def)
  then show ?thesis
    by (simp add: ex_long_notes_def ExtractRoute_def scanner_lines_def MaxScanTokenSize_def)
qed

lemma long_line_spec: "route_label_spec ex_long_notes = ''x''"
proof -
  let ?l = "replicate 65536 (CHR ''a'')"
  have sl: "split_lines [] (?l @ newline # ''route: x'') = ?l # split_lines [] ''route: x''"
    using split_lines_first[of ?l "[]" "''route: x''"] by (simp add: newline_def)
  have tail: "split_lines [] ''route: x'' = [''route: x'']"
    by (simp add: newline_def)
  have d1: "dropCR ?l = ?l"
    by (simp add: dropCR_def)
  have d2: "dropCR ''route: x'' = ''route: x''"
    by (simp add: dropCR_def)
  have c1: "Index_after ''route:'' ?l = None"
    using Index_after_replicate[of "''route:''" "CHR ''a''" 65536] by simp
  have c2: "Index_after ''route:'' ''route: x'' = Some ([], '' x'')"
    by simp
  have t: "TrimSpace '' x'' = ''x''"
    by (simp add: TrimSpace_def TrimLeft_def TrimRight_def space_runes_def)
  show ?thesis
    unfolding route_label_spec_def ex_long_notes_def sl tail
    by (simp add: d1 d2 c1 c2 t Contains_def del: Index_after.simps)
qed

text \<open>
  C4, as the claim states it, fails for notes with a line of 64 KiB or more: the scanner
  stops at such a line, so a marker on a later line is never seen. For 65536 letters
  \<open>a\<close>, a line feed and \<open>route: x\<close>, the first line that contains the marker is
  \<open>route: x\<close> and the label the claim describes is \<open>x\<close>, but \<open>ExtractRoute\<close> returns the
  empty string.
\<close>

theorem ExtractRoute_long_line_counterexample:
  "ExtractRoute ex_long_notes = [] \<and> route_label_spec ex_long_notes = ''x''"
  using long_line_code long_line_spec by simp

text \<open>
  C4, amended. For every notes string none of whose lines is 65536 bytes or longer, the
  extracted route label is the white-space-trimmed remainder, after the first occurrence
  of the marker \<open>route:\<close>, of the first line that contains the marker, and the empty string
  if no line contains it (\<open>route_label_spec\<close>; a line ends at a line feed, and one carriage
  return before the line feed is not part of it). In particular the notes
  \<open>desc\<close>, \<open>route: /users/{id}\<close>, \<open>more\<close> on three lines yield \<open>/users/{id}\<close>.
\<close>

theorem ExtractRoute_refines_spec:
  "(list_all (\<lambda>line. length line < MaxScanTokenSize) (split_lines [] notes) \<longrightarrow>
      ExtractRoute notes = route_label_spec notes) \<and>
   ExtractRoute ex_notes = ''/users/{id}''"
proof (intro conjI impI)
  assume short: "list_all (\<lambda>line. length line < MaxScanTokenSize) (split_lines [] notes)"
  show "ExtractRoute notes = route_label_spec notes"
    by (simp add: ExtractRoute_def route_label_spec_def scanner_lines_short[OF short]
          route_loop_find)
next
  show "ExtractRoute ex_notes = ''/users/{id}''"
    by (simp add: ex_notes_def ExtractRoute_def scanner_lines_def newline_def
          MaxScanTokenSize_def dropCR_def Contains_def SplitN2_def TrimSpace_def TrimLeft_def
          TrimRight_def space_runes_def)
qed

theorem ExtractRoute_refines_spec_witness:
  "list_all (\<lambda>line. length line < MaxScanTokenSize) (split_lines [] ex_notes) \<and>
   ExtractRoute ex_notes = route_label_spec ex_notes \<and>
   route_label_spec ex_notes = ''/users/{id}'' \<and>
   ExtractRoute ''no marker here'' = []"
  using ExtractRoute_refines_spec [of ex_notes] ExtractRoute_refines_spec [of "''no marker here''"]
  by (simp add: ex_notes_def newline_def MaxScanTokenSize_def route_label_spec_def dropCR_def
        Contains_def TrimSpace_def TrimLeft_def TrimRight_def space_runes_def)


section \<open>Webhook extraction\<close>

lemma extract_loop_eq:
  "extract_loop start w ns =
     map (webhook_of_node start w) (filter (\<lambda>n. node_Type n = webhook_type) ns)"
  by (induction ns) simp_all

lemma first_ranged_member:
  assumes "creds \<noteq> []"
  shows "\<exists>credType cred. (credType, cred) \<in> set creds \<and>
           first_ranged k creds =
             Some \<lparr>wc_Type = credType, wc_ID = cred_ID cred, wc_Name = cred_Name cred\<rparr>"
proof -
  let ?e = "creds ! (k mod length creds)"
  have "k mod length creds < length creds" using assms by simp
  then have "?e \<in> set creds" by (rule nth_mem)
  moreover have "first_ranged k creds =
      Some \<lparr>wc_Type = fst ?e, wc_ID = cred_ID (snd ?e), wc_Name = cred_Name (snd ?e)\<rparr>"
    using assms by (simp add: first_ranged_def case_prod_beta)
  ultimately show ?thesis by (metis prod.collapse)
qed

lemma first_ranged_single:
  "first_ranged k [(credType, cred)] =
     Some \<lparr>wc_Type = credType, wc_ID = cred_ID cred, wc_Name = cred_Name cred\<rparr>"
  by (simp add: first_ranged_def)

text \<open>
  C5, as the claim states it, fails: the credentials are a Go map, and the code keeps the
  entry the map iteration starts with, which need not be the first one declared. The node
  \<open>ex_hook_A\<close> declares \<open>httpBasicAuth\<close> first and \<open>httpHeaderAuth\<close> second; when the
  iteration starts with the second entry, the extracted webhook keeps \<open>httpHeaderAuth\<close>.
\<close>

theorem first_credential_counterexample:
  "map wh_Credentials (extractWebhooksFromWorkflow (\<lambda>node. 1) ex_workflow) =
     [Some \<lparr>wc_Type = ''httpHeaderAuth'', wc_ID = ''2'', wc_Name = ''header''\<rparr>, None] \<and>
   hd (Credentials ex_hook_A) = (''httpBasicAuth'', \<lparr>cred_ID = ''1'', cred_Name = ''basic''\<rparr>)"
  by (simp add: extractWebhooksFromWorkflow_def webhook_of_node_def first_ranged_def
        ex_workflow_def ex_hook_A_def ex_hook_B_def webhook_type_def)

text \<open>
  C5, amended. For every webhook-trigger node of a workflow with at least one attached
  credential, the webhook extracted for it keeps exactly one credential, and that is one
  of the node's attached credentials (its type, id and name); when exactly one credential
  is attached, it is that one. Which one is kept when several are attached is not
  determined by the order of declaration.
\<close>

theorem extracted_credential_is_attached:
  assumes "node \<in> set (Nodes workflow)"
      and "node_Type node = webhook_type"
      and "Credentials node \<noteq> []"
  shows "webhook_of_node start workflow node \<in> set (extractWebhooksFromWorkflow start workflow) \<and>
         (\<exists>credType cred. (credType, cred) \<in> set (Credentials node) \<and>
            wh_Credentials (webhook_of_node start workflow node) =
              Some \<lparr>wc_Type = credType, wc_ID = cred_ID cred, wc_Name = cred_Name cred\<rparr>) \<and>
         (\<forall>credType cred. Credentials node = [(credType, cred)] \<longrightarrow>
            wh_Credentials (webhook_of_node start workflow node) =
              Some \<lparr>wc_Type = credType, wc_ID = cred_ID cred, wc_Name = cred_Name cred\<rparr>)"
proof (intro conjI allI impI)
  show "webhook_of_node start workflow node \<in> set (extractWebhooksFromWorkflow start workflow)"
    using assms(1,2) by (simp add: extractWebhooksFromWorkflow_def extract_loop_eq)
next
  show "\<exists>credType cred. (credType, cred) \<in> set (Credentials node) \<and>
          wh_Credentials (webhook_of_node start workflow node) =
            Some \<lparr>wc_Type = credType, wc_ID = cred_ID cred, wc_Name = cred_Name cred\<rparr>"
    using first_ranged_member[OF assms(3), of "start node"] by (simp add: webhook_of_node_def)
next
  fix credType cred
  assume "Credentials node = [(credType, cred)]"
  then show "wh_Credentials (webhook_of_node start workflow node) =
          Some \<lparr>wc_Type = credType, wc_ID = cred_ID cred, wc_Name = cred_Name cred\<rparr>"
    by (simp add: webhook_of_node_def first_ranged_single)
qed

theorem extracted_credential_is_attached_witness:
  "ex_hook_A \<in> set (Nodes ex_workflow) \<and> node_Type ex_hook_A = webhook_type \<and>
   Credentials ex_hook_A \<noteq> [] \<and>
   webhook_of_node (\<lambda>node. 0) ex_workflow ex_hook_A
     \<in> set (extractWebhooksFromWorkflow (\<lambda>node. 0) ex_workflow) \<and>
   wh_Credentials (webhook_of_node (\<lambda>node. 0) ex_workflow ex_hook_A) =
     Some \<lparr>wc_Type = ''httpBasicAuth'', wc_ID = ''1'', wc_Name = ''basic''\<rparr>"
  using extracted_credential_is_attached [of ex_hook_A ex_workflow "\<lambda>node. 0"]
  by (simp add: extractWebhooksFromWorkflow_def webhook_of_node_def first_ranged_def
        ex_workflow_def ex_hook_A_def ex_hook_B_def webhook_type_def)


section \<open>The store when every operation succeeds\<close>

lemma next_fault_ok: "faults s = [] \<Longrightarrow> next_fault s = (None, s)"
  by (simp add: next_fault_def)

lemma FindCollectionByNameOrId_ok: "faults s = [] \<Longrightarrow> FindCollectionByNameOrId s = (None, s)"
  by (simp add: FindCollectionByNameOrId_def next_fault_ok)

lemma FindRecordsByFilter_ok:
  "faults s = [] \<Longrightarrow>
     FindRecordsByFilter i w s =
       (Inr (first_by_created_at_desc (tie_break s) (filter (for_pair i w) (workflows s))), s)"
  by (simp add: FindRecordsByFilter_def next_fault_ok)

lemma FindAllWebhookRecords_ok:
  "faults s = [] \<Longrightarrow>
     FindAllWebhookRecords i w s = (Inr (filter (webhook_for_pair i w) (webhooks s)), s)"
  by (simp add: FindAllWebhookRecords_def next_fault_ok)

lemma getWorkflowName_ok:
  "faults s = [] \<Longrightarrow> getWorkflowName i w s = (current_name i w s, s)"
  by (simp add: getWorkflowName_def FindRecordsByFilter_ok current_name_def split: list.splits)

lemma SaveWebhookRecord_ok:
  "faults s = [] \<Longrightarrow>
     SaveWebhookRecord r s =
       (None, s\<lparr>webhooks := webhooks s @ [r\<lparr>hr_id := next_id s\<rparr>], next_id := Suc (next_id s)\<rparr>)"
  by (simp add: SaveWebhookRecord_def next_fault_ok)

lemma SaveWorkflowRecord_ok:
  "faults s = [] \<Longrightarrow>
     SaveWorkflowRecord r s =
       (None, s\<lparr>workflows := workflows s @ [r\<lparr>wr_id := next_id s\<rparr>], next_id := Suc (next_id s)\<rparr>)"
  by (simp add: SaveWorkflowRecord_def next_fault_ok)

lemma DeleteWebhookRecord_ok:
  "faults s = [] \<Longrightarrow>
     DeleteWebhookRecord r s =
       (None, s\<lparr>webhooks := filter (\<lambda>x. hr_id x \<noteq> hr_id r) (webhooks s)\<rparr>)"
  by (simp add: DeleteWebhookRecord_def next_fault_ok)

lemma delete_loop_ok:
  "faults s = [] \<Longrightarrow>
     delete_loop records s =
       (None, s\<lparr>webhooks := filter (\<lambda>x. hr_id x \<notin> set (map hr_id records)) (webhooks s)\<rparr>)"
proof (induction records arbitrary: s)
  case Nil
  then show ?case by simp
next
  case (Cons r records)
  have eq: "filter (\<lambda>x. hr_id x \<notin> set (map hr_id records))
              (filter (\<lambda>x. hr_id x \<noteq> hr_id r) (webhooks s))
          = filter (\<lambda>x. hr_id x \<notin> set (map hr_id (r # records))) (webhooks s)"
    by (auto intro: filter_cong)
  show ?case
    using Cons.prems
    by (simp add: DeleteWebhookRecord_ok Cons.IH eq[simplified] conj_commute del: set_map)
qed

lemma current_name_frame [simp]:
  "current_name i w (s\<lparr>webhooks := x\<rparr>) = current_name i w s"
  "current_name i w (s\<lparr>next_id := n\<rparr>) = current_name i w s"
  by (simp_all add: current_name_def)

lemma insert_loop_ok:
  "faults s = [] \<Longrightarrow>
     insert_loop i w whs s =
       s\<lparr>webhooks := webhooks s @
            number_from (next_id s)
              (map (webhook_record i w (current_name (inst_Id i) (WorkflowID w) s)) whs),
         next_id := next_id s + length whs\<rparr>"
proof (induction whs arbitrary: s)
  case Nil
  then show ?case by simp
next
  case (Cons wh whs)
  show ?case
    using Cons.prems
    by (simp add: getWorkflowName_ok SaveWebhookRecord_ok Cons.IH)
qed

lemma syncWebhooks_ok:
  assumes "faults s = []"
  shows "syncWebhooks start i w s =
     (None, s\<lparr>webhooks :=
                 filter (\<lambda>x. hr_id x \<notin> set (map hr_id
                           (filter (webhook_for_pair (inst_Id i) (WorkflowID w)) (webhooks s))))
                   (webhooks s) @
                 number_from (next_id s)
                   (map (webhook_record i w (current_name (inst_Id i) (WorkflowID w) s))
                      (extractWebhooksFromWorkflow start w)),
              next_id := next_id s + length (extractWebhooksFromWorkflow start w)\<rparr>)"
  using assms
  by (simp add: syncWebhooks_def FindCollectionByNameOrId_ok FindAllWebhookRecords_ok
        delete_loop_ok insert_loop_ok del: set_map)

lemma filter_pair_deleted:
  "filter (\<lambda>x. hr_id x \<notin> set (map hr_id (filter (webhook_for_pair a b) xs)) \<and>
               webhook_for_pair a b x) xs = []"
  by (auto simp add: filter_empty_conv)

lemma filter_pair_number_from:
  "filter (webhook_for_pair (inst_Id i) (WorkflowID w))
      (number_from n (map (webhook_record i w name) whs))
    = number_from n (map (webhook_record i w name) whs)"
  by (induction whs arbitrary: n) (simp_all add: webhook_for_pair_def webhook_record_def)

lemma syncWebhooks_pair:
  assumes "faults s = []"
  shows "fst (syncWebhooks start i w s) = None \<and>
         filter (webhook_for_pair (inst_Id i) (WorkflowID w))
             (webhooks (snd (syncWebhooks start i w s)))
           = number_from (next_id s)
               (map (webhook_record i w (current_name (inst_Id i) (WorkflowID w) s))
                  (extractWebhooksFromWorkflow start w))"
  by (simp add: syncWebhooks_ok[OF assms] filter_pair_deleted filter_pair_number_from
        del: set_map)

lemma syncWebhooks_workflows:
  "faults s = [] \<Longrightarrow> workflows (snd (syncWebhooks start i w s)) = workflows s"
  by (simp add: syncWebhooks_ok)

lemma number_from_map [simp]:
  "map hr_webhook_url (number_from n rs) = map hr_webhook_url rs"
  "map hr_node_id (number_from n rs) = map hr_node_id rs"
  by (induction rs arbitrary: n) simp_all


section \<open>What the webhook synchronisation adds, whatever the store does\<close>

lemma next_fault_webhooks [simp]:
  "webhooks (snd (next_fault s)) = webhooks s"
  "next_id (snd (next_fault s)) = next_id s"
  by (simp_all add: next_fault_def split: list.splits)

lemma DeleteWebhookRecord_subset:
  "set (webhooks (snd (DeleteWebhookRecord r s))) \<subseteq> set (webhooks s)"
  by (auto simp add: DeleteWebhookRecord_def next_fault_def split: list.splits option.splits)

lemma delete_loop_subset:
  "set (webhooks (snd (delete_loop rs s))) \<subseteq> set (webhooks s)"
proof (induction rs arbitrary: s)
  case Nil
  show ?case by simp
next
  case (Cons r rs)
  show ?case
  proof (cases "DeleteWebhookRecord r s")
    case (Pair e s')
    have sub: "set (webhooks s') \<subseteq> set (webhooks s)"
      using DeleteWebhookRecord_subset[of r s] Pair by simp
    show ?thesis
    proof (cases e)
      case None
      then show ?thesis using Pair Cons.IH[of s'] sub by auto
    next
      case (Some err)
      then show ?thesis using Pair sub by simp
    qed
  qed
qed

lemma getWorkflowName_webhooks:
  "webhooks (snd (getWorkflowName a b s)) = webhooks s"
  by (simp add: getWorkflowName_def FindRecordsByFilter_def next_fault_def
        split: list.splits option.splits)

lemma SaveWebhookRecord_adds:
  "r \<in> set (webhooks (snd (SaveWebhookRecord rec s))) \<Longrightarrow>
     r \<in> set (webhooks s) \<or> (\<exists>n. r = rec\<lparr>hr_id := n\<rparr>)"
  by (auto simp add: SaveWebhookRecord_def next_fault_def split: list.splits option.splits)

lemma insert_loop_adds:
  "r \<in> set (webhooks (insert_loop i w whs s)) \<Longrightarrow>
     r \<in> set (webhooks s) \<or>
     (\<exists>wh name n. wh \<in> set whs \<and> r = (webhook_record i w name wh)\<lparr>hr_id := n\<rparr>)"
proof (induction whs arbitrary: s)
  case Nil
  then show ?case by simp
next
  case (Cons wh whs)
  obtain name s1 where g: "getWorkflowName (inst_Id i) (WorkflowID w) s = (name, s1)"
    by (cases "getWorkflowName (inst_Id i) (WorkflowID w) s")
  have w1: "webhooks s1 = webhooks s"
    using getWorkflowName_webhooks[of "inst_Id i" "WorkflowID w" s] g by simp
  let ?s2 = "snd (SaveWebhookRecord (webhook_record i w name wh) s1)"
  have "r \<in> set (webhooks (insert_loop i w whs ?s2))"
    using Cons.prems g by simp
  then consider "r \<in> set (webhooks ?s2)"
    | "\<exists>wh' name' n. wh' \<in> set whs \<and> r = (webhook_record i w name' wh')\<lparr>hr_id := n\<rparr>"
    using Cons.IH[of ?s2] by blast
  then show ?case
  proof cases
    case 1
    then show ?thesis
      using SaveWebhookRecord_adds[of r "webhook_record i w name wh" s1] w1 by auto
  next
    case 2
    then show ?thesis by auto
  qed
qed

lemma syncWebhooks_adds:
  assumes "r \<in> set (webhooks (snd (syncWebhooks start i w s)))"
  shows "r \<in> set (webhooks s) \<or>
         (\<exists>wh name n. wh \<in> set (extractWebhooksFromWorkflow start w) \<and>
            r = (webhook_record i w name wh)\<lparr>hr_id := n\<rparr>)"
proof (cases "FindCollectionByNameOrId s")
  case (Pair e1 s1)
  have w1: "webhooks s1 = webhooks s"
    using Pair by (auto simp add: FindCollectionByNameOrId_def next_fault_def split: list.splits)
  show ?thesis
  proof (cases e1)
    case (Some err)
    then show ?thesis using assms Pair w1 by (simp add: syncWebhooks_def)
  next
    case None
    show ?thesis
    proof (cases "FindAllWebhookRecords (inst_Id i) (WorkflowID w) s1")
      case (Pair found s2)
      note P2 = this
      have w2: "webhooks s2 = webhooks s"
        using P2 w1
        by (auto simp add: FindAllWebhookRecords_def next_fault_def split: list.splits option.splits)
      show ?thesis
      proof (cases found)
        case (Inl err)
        then show ?thesis
          using assms \<open>FindCollectionByNameOrId s = (e1, s1)\<close> None P2 w2
          by (simp add: syncWebhooks_def)
      next
        case (Inr records)
        show ?thesis
        proof (cases "delete_loop records s2")
          case (Pair e3 s3)
          have w3: "set (webhooks s3) \<subseteq> set (webhooks s)"
            using delete_loop_subset[of records s2] Pair w2 by simp
          show ?thesis
          proof (cases e3)
            case (Some err)
            then show ?thesis
              using assms \<open>FindCollectionByNameOrId s = (e1, s1)\<close> None P2 Inr Pair w3
              by (auto simp add: syncWebhooks_def)
          next
            case None': None
            have "r \<in> set (webhooks (insert_loop i w (extractWebhooksFromWorkflow start w) s3))"
              using assms \<open>FindCollectionByNameOrId s = (e1, s1)\<close> None P2 Inr Pair None'
              by (simp add: syncWebhooks_def)
            then show ?thesis
              using insert_loop_adds[of r i w "extractWebhooksFromWorkflow start w" s3] w3
              by blast
          qed
        qed
      qed
    qed
  qed
qed

lemma recorded_url_of_added:
  assumes "r \<in> set (webhooks (snd (syncWebhooks start i w s)))"
  shows "r \<in> set (webhooks s) \<or>
         (\<exists>node. node \<in> set (Nodes w) \<and> node_Type node = webhook_type \<and>
            hr_node_id r = node_ID node \<and>
            hr_webhook_url r = Host i @ ''/webhook/'' @ Path (Parameters node))"
proof -
  from syncWebhooks_adds[OF assms] show ?thesis
  proof
    assume "r \<in> set (webhooks s)"
    then show ?thesis by simp
  next
    assume "\<exists>wh name n. wh \<in> set (extractWebhooksFromWorkflow start w) \<and>
            r = (webhook_record i w name wh)\<lparr>hr_id := n\<rparr>"
    then obtain wh name n where m: "wh \<in> set (extractWebhooksFromWorkflow start w)"
      and r: "r = (webhook_record i w name wh)\<lparr>hr_id := n\<rparr>" by blast
    from m obtain node where nd: "node \<in> set (Nodes w)" "node_Type node = webhook_type"
      and wh: "wh = webhook_of_node start w node"
      by (auto simp add: extractWebhooksFromWorkflow_def extract_loop_eq)
    have "hr_node_id r = node_ID node"
         "hr_webhook_url r = Host i @ ''/webhook/'' @ Path (Parameters node)"
      by (simp_all add: r wh webhook_record_def webhook_of_node_def)
    then show ?thesis using nd by blast
  qed
qed


section \<open>Evaluating the examples\<close>

lemmas example_data = ex_hook_A_def ex_hook_B_def ex_workflow_def ex_instance_def ex_rt_def
  ex_snapshot_def ex_stale_def ex_record_def ex_store_def NewInstance_def webhook_type_def

lemmas store_steps = syncWebhooks_def FindCollectionByNameOrId_def FindAllWebhookRecords_def
  next_fault_def webhook_for_pair_def DeleteWebhookRecord_def extractWebhooksFromWorkflow_def
  webhook_of_node_def first_ranged_def getWorkflowName_def FindRecordsByFilter_def for_pair_def
  first_by_created_at_desc_def SaveWebhookRecord_def webhook_record_def
  ExtractRoute_def scanner_lines_def newline_def MaxScanTokenSize_def dropCR_def
  Contains_def SplitN2_def TrimSpace_def TrimLeft_def TrimRight_def space_runes_def
  syncWorkflows_step_def needsUpdate_def SaveWorkflowRecord_def createWorkflowRecord_def
  getNodeNames_def syncWorkflows_def current_name_def most_recent_def triple_differs_def
  changed_def snapshot_def

lemmas pass_steps = reconcile_def syncInstance_def GetWorkflows_def GetInstanceStats_def
  stats_workflow_def stats_node_def instance_of_record_def SaveInstanceRecord_def
  DateTime_def mark_unavailable_def redis_type_def schedule_type_def Let_def


section \<open>Webhook replacement\<close>

text \<open>
  C2. When the store carries out every operation of the webhook synchronisation of a
  workflow without error, the synchronisation returns no error, and afterwards the stored
  webhook records of the (instance, workflow id) pair are exactly the records built from
  the webhooks extracted from the workflow's webhook-trigger nodes, one for each, in the
  order of the nodes, under fresh identities: every record the pair had before has been
  deleted, and none of them remains.
\<close>

theorem syncWebhooks_replaces_pair:
  assumes "faults s = []"
  shows "fst (syncWebhooks start i w s) = None \<and>
         filter (webhook_for_pair (inst_Id i) (WorkflowID w))
             (webhooks (snd (syncWebhooks start i w s)))
           = number_from (next_id s)
               (map (webhook_record i w (current_name (inst_Id i) (WorkflowID w) s))
                  (extractWebhooksFromWorkflow start w))"
  using assms by (rule syncWebhooks_pair)

theorem syncWebhooks_replaces_pair_witness:
  "faults (ex_store [ex_snapshot ''2024-01-01T00:00:00Z'' ''2024-03-01T00:00:00Z''] []) = [] \<and>
   map hr_node_id (filter (webhook_for_pair ''i1'' ''w1'')
     (webhooks (ex_store [ex_snapshot ''2024-01-01T00:00:00Z'' ''2024-03-01T00:00:00Z''] [])))
     = [''Z''] \<and>
   filter (webhook_for_pair ''i1'' ''w1'')
     (webhooks (snd (syncWebhooks (\<lambda>node. 0) ex_instance ex_workflow
        (ex_store [ex_snapshot ''2024-01-01T00:00:00Z'' ''2024-03-01T00:00:00Z''] []))))
     = [\<lparr>hr_id = 2, hr_node_id = ''A'', hr_instance = ''i1'', hr_workflow_id = ''w1'',
         hr_notes = ''route: /o'', hr_route = ''/o'', hr_workflow_name = ''Shop'',
         hr_webhook_url = ''https://n8n.example/webhook/orders'', hr_methods = [''POST''],
         hr_options = None, hr_auth_type = ''basicAuth''\<rparr>,
        \<lparr>hr_id = 3, hr_node_id = ''B'', hr_instance = ''i1'', hr_workflow_id = ''w1'',
         hr_notes = [], hr_route = [], hr_workflow_name = ''Shop'',
         hr_webhook_url = ''https://n8n.example/webhook/ping'', hr_methods = [''GET''],
         hr_options = Some ''{}'', hr_auth_type = []\<rparr>]"
  using syncWebhooks_replaces_pair
    [of "ex_store [ex_snapshot ''2024-01-01T00:00:00Z'' ''2024-03-01T00:00:00Z''] []"
        "\<lambda>node. 0" ex_instance ex_workflow]
  by (simp add: example_data store_steps)

text \<open>
  C6. The URL recorded for an extracted webhook is the host of the instance followed by
  \<open>/webhook/\<close> and the path configured on the node. When the store carries out every
  operation of the webhook synchronisation, the URLs on the stored webhook records of the
  pair are exactly these, one for each webhook-trigger node of the workflow and in their
  order. And whatever the store does, every record the synchronisation adds to the store
  belongs to a webhook-trigger node of the workflow and carries this URL for it.
\<close>

theorem recorded_webhook_url:
  "(faults s = [] \<longrightarrow>
      map hr_webhook_url
        (filter (webhook_for_pair (inst_Id i) (WorkflowID w))
           (webhooks (snd (syncWebhooks start i w s))))
      = map (\<lambda>node. Host i @ ''/webhook/'' @ Path (Parameters node))
          (filter (\<lambda>node. node_Type node = webhook_type) (Nodes w))) \<and>
   (r \<in> set (webhooks (snd (syncWebhooks start i w s))) \<longrightarrow>
      r \<in> set (webhooks s) \<or>
      (\<exists>node. node \<in> set (Nodes w) \<and> node_Type node = webhook_type \<and>
         hr_node_id r = node_ID node \<and>
         hr_webhook_url r = Host i @ ''/webhook/'' @ Path (Parameters node)))"
proof (intro conjI impI)
  assume ok: "faults s = []"
  show "map hr_webhook_url
        (filter (webhook_for_pair (inst_Id i) (WorkflowID w))
           (webhooks (snd (syncWebhooks start i w s))))
      = map (\<lambda>node. Host i @ ''/webhook/'' @ Path (Parameters node))
          (filter (\<lambda>node. node_Type node = webhook_type) (Nodes w))"
    using syncWebhooks_pair[OF ok, of start i w]
    by (simp add: extractWebhooksFromWorkflow_def extract_loop_eq webhook_record_def
          webhook_of_node_def comp_def)
next
  assume "r \<in> set (webhooks (snd (syncWebhooks start i w s)))"
  then show "r \<in> set (webhooks s) \<or>
      (\<exists>node. node \<in> set (Nodes w) \<and> node_Type node = webhook_type \<and>
         hr_node_id r = node_ID node \<and>
         hr_webhook_url r = Host i @ ''/webhook/'' @ Path (Parameters node))"
    by (rule recorded_url_of_added)
qed

theorem recorded_webhook_url_witness:
  "faults (ex_store [] []) = [] \<and>
   map hr_webhook_url
     (filter (webhook_for_pair ''i1'' ''w1'')
        (webhooks (snd (syncWebhooks (\<lambda>node. 1) ex_instance ex_workflow (ex_store [] [])))))
     = [''https://n8n.example/webhook/orders'', ''https://n8n.example/webhook/ping''] \<and>
   \<lparr>hr_id = 2, hr_node_id = ''B'', hr_instance = ''i1'', hr_workflow_id = ''w1'',
    hr_notes = [], hr_route = [], hr_workflow_name = ''w1'',
    hr_webhook_url = ''https://n8n.example/webhook/ping'', hr_methods = [''GET''],
    hr_options = Some ''{}'', hr_auth_type = []\<rparr>
     \<in> set (webhooks (snd (syncWebhooks (\<lambda>node. 1) ex_instance ex_workflow
                (ex_store [] [None, None, None, None, Some ''constraint failed'']))))  \<and>
   map (\<lambda>r. (hr_node_id r, hr_webhook_url r))
     (webhooks (snd (syncWebhooks (\<lambda>node. 1) ex_instance ex_workflow
                       (ex_store [] [None, None, None, None, Some ''constraint failed'']))))
     = [(''B'', ''https://n8n.example/webhook/ping'')] \<and>
   Host ex_instance @ ''/webhook/'' @ Path (Parameters ex_hook_B)
     = ''https://n8n.example/webhook/ping''"
  using
    recorded_webhook_url
      [where s = "ex_store [] []" and i = ex_instance and w = ex_workflow
         and start = "\<lambda>node. 1"]
    recorded_webhook_url
      [where s = "ex_store [] [None, None, None, None, Some ''constraint failed'']"
         and i = ex_instance and w = ex_workflow and start = "\<lambda>node. 1"
         and r = "\<lparr>hr_id = 2, hr_node_id = ''B'', hr_instance = ''i1'', hr_workflow_id = ''w1'',
                   hr_notes = [], hr_route = [], hr_workflow_name = ''w1'',
                   hr_webhook_url = ''https://n8n.example/webhook/ping'', hr_methods = [''GET''],
                   hr_options = Some ''{}'', hr_auth_type = []\<rparr>"]
  by (simp add: example_data store_steps)

text \<open>
  The \<open>URL\<close> field of the extracted \<open>Webhook\<close> value itself is built from the workflow's
  instance id, not from the host; the stored record does not take its URL from that field.
\<close>

lemma extracted_URL_field:
  "wh_URL (webhook_of_node start w node) = InstanceID w @ ''/webhook/'' @ Path (Parameters node)"
  by (simp add: webhook_of_node_def)


section \<open>Change detection\<close>

lemma needsUpdate_changed:
  assumes "first_by_created_at_desc (tie_break s)
             (filter (for_pair (inst_Id i) (WorkflowID w)) (workflows s))
           = most_recent (inst_Id i) (WorkflowID w) s"
  shows "needsUpdate rt w
           (Inr (first_by_created_at_desc (tie_break s)
                  (filter (for_pair (inst_Id i) (WorkflowID w)) (workflows s))))
         = changed rt i w s"
  unfolding assms
  by (auto simp add: needsUpdate_def changed_def triple_differs_def split: list.splits)

text \<open>
  The lookup returns the most recent snapshot of a pair whenever the pair has at most one
  stored snapshot.
\<close>

lemma lookup_single:
  assumes "length rows \<le> 1"
  shows "first_by_created_at_desc tie rows = (if rows = [] then [] else [last rows])"
proof (cases rows)
  case Nil
  then show ?thesis by (simp add: first_by_created_at_desc_def)
next
  case (Cons r rs)
  then have "rs = []" using assms by simp
  then show ?thesis using Cons by (simp add: first_by_created_at_desc_def)
qed

lemma step_lookup_error:
  assumes "faults s = [Some e]"
  shows "syncWorkflows_step rt i w s =
           snd (syncWebhooks (range_start rt) i w
                  (s\<lparr>faults := [], workflows := workflows s @ [snapshot rt i w s],
                     next_id := Suc (next_id s)\<rparr>))"
  using assms
  by (simp add: syncWorkflows_step_def FindRecordsByFilter_def next_fault_def needsUpdate_def
        SaveWorkflowRecord_def snapshot_def)

text \<open>
  C1, as the claim states it, fails when the lookup of the stored snapshot fails. The store
  holds one snapshot of the workflow, the most recent one, and it agrees with the remote
  workflow on \<open>created_at\<close>, \<open>updated_at\<close> and \<open>active\<close>; the lookup returns an error. The step
  writes a second snapshot, equal to the first but for its identity, and replaces the
  webhooks.
\<close>

theorem change_detection_lookup_error_counterexample:
  "most_recent ''i1'' ''w1''
      (ex_store [ex_snapshot ''2024-01-01T00:00:00Z'' ''2024-03-01T00:00:00Z'']
         [Some ''database is locked''])
     = [ex_snapshot ''2024-01-01T00:00:00Z'' ''2024-03-01T00:00:00Z''] \<and>
   \<not> triple_differs ex_rt ex_workflow
        (ex_snapshot ''2024-01-01T00:00:00Z'' ''2024-03-01T00:00:00Z'') \<and>
   workflows (syncWorkflows_step ex_rt ex_instance ex_workflow
      (ex_store [ex_snapshot ''2024-01-01T00:00:00Z'' ''2024-03-01T00:00:00Z'']
         [Some ''database is locked'']))
     = [ex_snapshot ''2024-01-01T00:00:00Z'' ''2024-03-01T00:00:00Z'',
        (ex_snapshot ''2024-01-01T00:00:00Z'' ''2024-03-01T00:00:00Z'')\<lparr>wr_id := 2\<rparr>] \<and>
   map hr_id (webhooks (syncWorkflows_step ex_rt ex_instance ex_workflow
      (ex_store [ex_snapshot ''2024-01-01T00:00:00Z'' ''2024-03-01T00:00:00Z'']
         [Some ''database is locked''])))
     = [3, 4]"
  by (simp add: example_data store_steps)

text \<open>
  C1, amended. For every remote workflow processed in a reconciliation pass during which
  the store carries out every operation without error, and for which the lookup returns
  the most recent stored snapshot of its (instance, workflow id) key (none when there is
  none): a new snapshot is appended if and only if the key has no stored snapshot or at
  least one of \<open>created_at\<close>, \<open>updated_at\<close> (both as RFC 3339 text) and \<open>active\<close> differs
  between the remote workflow and that snapshot; when all three are equal the store is
  left exactly as it was, so no snapshot and no webhook is written.
\<close>

theorem change_detection_decision:
  assumes "faults s = []"
      and "first_by_created_at_desc (tie_break s)
             (filter (for_pair (inst_Id i) (WorkflowID w)) (workflows s))
           = most_recent (inst_Id i) (WorkflowID w) s"
  shows "workflows (syncWorkflows_step rt i w s) =
           (if changed rt i w s then workflows s @ [snapshot rt i w s] else workflows s) \<and>
         (\<not> changed rt i w s \<longrightarrow> syncWorkflows_step rt i w s = s) \<and>
         (most_recent (inst_Id i) (WorkflowID w) s = [] \<longrightarrow> changed rt i w s)"
  using assms(1)
  by (simp add: syncWorkflows_step_def FindRecordsByFilter_ok needsUpdate_changed[OF assms(2)]
        SaveWorkflowRecord_ok syncWebhooks_workflows snapshot_def changed_def)

theorem change_detection_decision_witness:
  "faults (ex_store [ex_snapshot ''2024-01-01T00:00:00Z'' ''2024-02-01T00:00:00Z''] []) = [] \<and>
   first_by_created_at_desc (\<lambda>rows. 0)
       [ex_snapshot ''2024-01-01T00:00:00Z'' ''2024-02-01T00:00:00Z'']
     = most_recent ''i1'' ''w1''
         (ex_store [ex_snapshot ''2024-01-01T00:00:00Z'' ''2024-02-01T00:00:00Z''] []) \<and>
   changed ex_rt ex_instance ex_workflow
     (ex_store [ex_snapshot ''2024-01-01T00:00:00Z'' ''2024-02-01T00:00:00Z''] []) \<and>
   workflows (syncWorkflows_step ex_rt ex_instance ex_workflow
       (ex_store [ex_snapshot ''2024-01-01T00:00:00Z'' ''2024-02-01T00:00:00Z''] []))
     = [ex_snapshot ''2024-01-01T00:00:00Z'' ''2024-02-01T00:00:00Z'',
        (ex_snapshot ''2024-01-01T00:00:00Z'' ''2024-03-01T00:00:00Z'')\<lparr>wr_id := 2\<rparr>] \<and>
   \<not> changed ex_rt ex_instance ex_workflow
     (ex_store [ex_snapshot ''2024-01-01T00:00:00Z'' ''2024-03-01T00:00:00Z''] []) \<and>
   syncWorkflows_step ex_rt ex_instance ex_workflow
       (ex_store [ex_snapshot ''2024-01-01T00:00:00Z'' ''2024-03-01T00:00:00Z''] [])
     = ex_store [ex_snapshot ''2024-01-01T00:00:00Z'' ''2024-03-01T00:00:00Z''] [] \<and>
   changed ex_rt ex_instance ex_workflow (ex_store [] []) \<and>
   workflows (syncWorkflows_step ex_rt ex_instance ex_workflow (ex_store [] []))
     = [(ex_snapshot ''2024-01-01T00:00:00Z'' ''2024-03-01T00:00:00Z'')\<lparr>wr_id := 2\<rparr>]"
  using
    change_detection_decision
      [of "ex_store [ex_snapshot ''2024-01-01T00:00:00Z'' ''2024-02-01T00:00:00Z''] []"
          ex_instance ex_workflow ex_rt]
    change_detection_decision
      [of "ex_store [ex_snapshot ''2024-01-01T00:00:00Z'' ''2024-03-01T00:00:00Z''] []"
          ex_instance ex_workflow ex_rt]
    change_detection_decision [of "ex_store [] []" ex_instance ex_workflow ex_rt]
  by (simp add: example_data store_steps)

text \<open>
  C10. If the lookup of the stored snapshot returns an error (and the store carries out
  the operations that follow), the step appends a new snapshot of the workflow and
  replaces the webhooks of the pair by the freshly extracted ones, whatever the store
  holds: also when a snapshot equal in all three fields is already there.
\<close>

theorem lookup_error_forces_update:
  assumes "faults s = [Some e]"
  shows "workflows (syncWorkflows_step rt i w s) = workflows s @ [snapshot rt i w s] \<and>
         filter (webhook_for_pair (inst_Id i) (WorkflowID w))
             (webhooks (syncWorkflows_step rt i w s))
           = number_from (Suc (next_id s))
               (map (webhook_record i w
                       (current_name (inst_Id i) (WorkflowID w)
                          (s\<lparr>workflows := workflows s @ [snapshot rt i w s]\<rparr>)))
                  (extractWebhooksFromWorkflow (range_start rt) w))"
proof -
  let ?m = "s\<lparr>faults := [], workflows := workflows s @ [snapshot rt i w s],
               next_id := Suc (next_id s)\<rparr>"
  have ok: "faults ?m = []" by simp
  have name: "current_name (inst_Id i) (WorkflowID w) ?m
            = current_name (inst_Id i) (WorkflowID w)
                (s\<lparr>workflows := workflows s @ [snapshot rt i w s]\<rparr>)"
    by (simp add: current_name_def)
  have "workflows (snd (syncWebhooks (range_start rt) i w ?m)) = workflows s @ [snapshot rt i w s]"
    using syncWebhooks_workflows[OF ok, of "range_start rt" i w] by simp
  moreover have "filter (webhook_for_pair (inst_Id i) (WorkflowID w))
             (webhooks (snd (syncWebhooks (range_start rt) i w ?m)))
           = number_from (Suc (next_id s))
               (map (webhook_record i w
                       (current_name (inst_Id i) (WorkflowID w)
                          (s\<lparr>workflows := workflows s @ [snapshot rt i w s]\<rparr>)))
                  (extractWebhooksFromWorkflow (range_start rt) w))"
    using syncWebhooks_pair[OF ok, of "range_start rt" i w] unfolding name by simp
  ultimately show ?thesis
    unfolding step_lookup_error[OF assms] by simp
qed

theorem lookup_error_forces_update_witness:
  "faults (ex_store [ex_snapshot ''2024-01-01T00:00:00Z'' ''2024-03-01T00:00:00Z'']
             [Some ''disk I/O error'']) = [Some ''disk I/O error''] \<and>
   map (\<lambda>r. (wr_id r, wr_created_at r, wr_updated_at r, wr_active r))
     (workflows (syncWorkflows_step ex_rt ex_instance ex_workflow
        (ex_store [ex_snapshot ''2024-01-01T00:00:00Z'' ''2024-03-01T00:00:00Z'']
           [Some ''disk I/O error''])))
     = [(0, ''2024-01-01T00:00:00Z'', ''2024-03-01T00:00:00Z'', True),
        (2, ''2024-01-01T00:00:00Z'', ''2024-03-01T00:00:00Z'', True)] \<and>
   map (\<lambda>r. (hr_id r, hr_node_id r))
     (filter (webhook_for_pair ''i1'' ''w1'')
        (webhooks (syncWorkflows_step ex_rt ex_instance ex_workflow
           (ex_store [ex_snapshot ''2024-01-01T00:00:00Z'' ''2024-03-01T00:00:00Z'']
              [Some ''disk I/O error'']))))
     = [(3, ''A''), (4, ''B'')]"
  using lookup_error_forces_update
    [of "ex_store [ex_snapshot ''2024-01-01T00:00:00Z'' ''2024-03-01T00:00:00Z'']
           [Some ''disk I/O error'']" "''disk I/O error''" ex_rt ex_instance ex_workflow]
  by (simp add: example_data store_steps)


section \<open>Failure isolation\<close>

lemma SaveInstanceRecord_frame:
  "workflows (snd (SaveInstanceRecord r s)) = workflows s"
  "webhooks (snd (SaveInstanceRecord r s)) = webhooks s"
  by (simp_all add: SaveInstanceRecord_def next_fault_def split: list.splits option.splits)

lemma SaveInstanceRecord_ok:
  "faults s = [] \<Longrightarrow>
     instances (snd (SaveInstanceRecord r s)) =
       map (\<lambda>x. if ir_id x = ir_id r then r else x) (instances s)"
  by (simp add: SaveInstanceRecord_def next_fault_def)

text \<open>The tick as a whole: when the store answers, the loop runs over all instance records.\<close>

lemma check_instances_ok:
  "faults s = [] \<Longrightarrow> check_instances rt s = instances_loop rt (instances s) s"
  by (simp add: check_instances_def FindAllInstanceRecords_def next_fault_ok)

lemma loop_fetch_failure:
  assumes "shouldCheckInstance (now rt) (ir_last_check r) (ir_check_interval_mins r)"
      and "remote rt (instance_of_record r) = Inl e"
  shows "instances_loop rt (r # rest) s =
           instances_loop rt rest
             (snd (SaveInstanceRecord (mark_unavailable rt r (''failed to get workflows: '' @ e)) s))"
  using assms by (simp add: syncInstance_def GetWorkflows_def)

lemma DateTime_close: "t - 1000000 < DateTime t" "DateTime t \<le> t"
proof -
  have "0 \<le> t mod 1000000" "t mod 1000000 < 1000000" by simp_all
  then show "t - 1000000 < DateTime t" "DateTime t \<le> t"
    by (simp_all add: DateTime_def)
qed

lemma due_advances:
  assumes due: "shouldCheckInstance t lc ci"
      and "0 \<le> sint ci" and "sint ci \<le> 153722867"
  shows "lc < DateTime t"
proof -
  have r: "lc + (if ci = 0 then 5 else sint ci) * 60000000000 < t"
    using shouldCheckInstance_in_range[of ci t lc] assms by simp
  have "ci \<noteq> 0 \<Longrightarrow> sint ci \<noteq> 0"
    by (simp add: signed_eq_0_iff)
  then have "1 \<le> (if ci = 0 then 5 else sint ci)"
    using assms(2) by (cases "ci = 0") auto
  then have "60000000000 \<le> (if ci = 0 then 5 else sint ci) * 60000000000"
    by simp
  then have "lc + 60000000000 < t"
    using r by linarith
  then show ?thesis
    using DateTime_close(1)[of t] by linarith
qed

text \<open>
  C7. For every instance that is due in a tick and whose workflow fetch fails with error
  text \<open>e\<close>: the loop of the tick continues with the remaining instances (the error goes no
  further), from a store in which no workflow snapshot and no webhook record has changed;
  the record of the instance is saved (it is in the store when the store accepts the
  save) with \<open>availability_status\<close> false, the note \<open>failed to get workflows:\<close> followed by
  \<open>e\<close>, which is not empty, and \<open>last_check\<close> set to the current time, to the millisecond;
  that is later than the previous \<open>last_check\<close> whenever the configured interval is between
  0 and 153722867 minutes.
\<close>

theorem fetch_failure_isolated:
  assumes "shouldCheckInstance (now rt) (ir_last_check r) (ir_check_interval_mins r)"
      and "remote rt (instance_of_record r) = Inl e"
  shows "instances_loop rt (r # rest) s =
           instances_loop rt rest
             (snd (SaveInstanceRecord
                     (mark_unavailable rt r (''failed to get workflows: '' @ e)) s)) \<and>
         workflows (snd (SaveInstanceRecord
                     (mark_unavailable rt r (''failed to get workflows: '' @ e)) s)) = workflows s \<and>
         webhooks (snd (SaveInstanceRecord
                     (mark_unavailable rt r (''failed to get workflows: '' @ e)) s)) = webhooks s \<and>
         (faults s = [] \<longrightarrow>
            instances (snd (SaveInstanceRecord
                     (mark_unavailable rt r (''failed to get workflows: '' @ e)) s)) =
              map (\<lambda>x. if ir_id x = ir_id r
                         then mark_unavailable rt r (''failed to get workflows: '' @ e) else x)
                (instances s)) \<and>
         \<not> ir_availability_status (mark_unavailable rt r (''failed to get workflows: '' @ e)) \<and>
         ir_availability_note (mark_unavailable rt r (''failed to get workflows: '' @ e)) =
           ''failed to get workflows: '' @ e \<and>
         ir_availability_note (mark_unavailable rt r (''failed to get workflows: '' @ e)) \<noteq> [] \<and>
         ir_last_check (mark_unavailable rt r (''failed to get workflows: '' @ e)) =
           DateTime (now rt) \<and>
         (0 \<le> sint (ir_check_interval_mins r) \<and> sint (ir_check_interval_mins r) \<le> 153722867 \<longrightarrow>
            ir_last_check r < DateTime (now rt))"
proof (intro conjI impI)
  show "instances_loop rt (r # rest) s =
           instances_loop rt rest
             (snd (SaveInstanceRecord
                     (mark_unavailable rt r (''failed to get workflows: '' @ e)) s))"
    using assms by (rule loop_fetch_failure)
next
  assume "faults s = []"
  then show "instances (snd (SaveInstanceRecord
                     (mark_unavailable rt r (''failed to get workflows: '' @ e)) s)) =
              map (\<lambda>x. if ir_id x = ir_id r
                         then mark_unavailable rt r (''failed to get workflows: '' @ e) else x)
                (instances s)"
    by (simp add: SaveInstanceRecord_ok mark_unavailable_def)
next
  assume "0 \<le> sint (ir_check_interval_mins r) \<and> sint (ir_check_interval_mins r) \<le> 153722867"
  then show "ir_last_check r < DateTime (now rt)"
    using due_advances[OF assms(1)] by simp
qed (simp_all add: SaveInstanceRecord_frame mark_unavailable_def)

theorem fetch_failure_isolated_witness:
  "shouldCheckInstance (now ex_rt) (ir_last_check (ex_record ''i0''))
     (ir_check_interval_mins (ex_record ''i0'')) \<and>
   remote ex_rt (instance_of_record (ex_record ''i0'')) = Inl ''error making request: timeout'' \<and>
   map (\<lambda>r. (ir_id r, ir_availability_status r, ir_availability_note r, ir_last_check r))
     (instances (instances_loop ex_rt [ex_record ''i0'', ex_record ''i1''] (ex_store [] [])))
     = [(''i0'', False, ''failed to get workflows: error making request: timeout'',
         1700000600000000000),
        (''i1'', True, [], 1700000600000000000)] \<and>
   map (\<lambda>r. (wr_instance r, wr_workflow_id r))
     (workflows (instances_loop ex_rt [ex_record ''i0'', ex_record ''i1''] (ex_store [] [])))
     = [(''i1'', ''w1'')] \<and>
   map (\<lambda>r. (hr_instance r, hr_node_id r))
     (webhooks (instances_loop ex_rt [ex_record ''i0'', ex_record ''i1''] (ex_store [] [])))
     = [(''i1'', ''A''), (''i1'', ''B'')]"
  using fetch_failure_isolated
    [of ex_rt "ex_record ''i0''" "''error making request: timeout''" "[ex_record ''i1'']"
        "ex_store [] []"]
  by (simp add: example_data store_steps pass_steps shouldCheckInstance_def Minute_def)


section \<open>A second pass over an unchanged remote instance\<close>

text \<open>
  Where a second pass is quiet. If the store holds no snapshot of the listed workflows,
  the remote list has no workflow id twice and the store carries out every operation, the
  first pass leaves exactly one snapshot for each listed workflow, the one it has just
  stored; the second pass finds it, sees no difference, and leaves the store as it is.
\<close>

lemma step_new:
  assumes "faults s = []"
      and "filter (for_pair (inst_Id i) (WorkflowID w)) (workflows s) = []"
  shows "faults (syncWorkflows_step rt i w s) = []"
    and "workflows (syncWorkflows_step rt i w s) = workflows s @ [snapshot rt i w s]"
    and "tie_break (syncWorkflows_step rt i w s) = tie_break s"
    and "instances (syncWorkflows_step rt i w s) = instances s"
  using assms
  by (simp_all add: syncWorkflows_step_def FindRecordsByFilter_ok first_by_created_at_desc_def
        needsUpdate_def SaveWorkflowRecord_ok syncWebhooks_ok snapshot_def)

lemma step_same:
  assumes "faults s = []"
      and "filter (for_pair (inst_Id i) (WorkflowID w)) (workflows s)
             = [(createWorkflowRecord rt i w)\<lparr>wr_id := n\<rparr>]"
  shows "syncWorkflows_step rt i w s = s"
  using assms
  by (simp add: syncWorkflows_step_def FindRecordsByFilter_ok first_by_created_at_desc_def
        needsUpdate_def createWorkflowRecord_def)

lemma snapshot_for_pair:
  "for_pair a k (snapshot rt i w s) \<longleftrightarrow> k = WorkflowID w \<and> a = inst_Id i"
  by (auto simp add: for_pair_def snapshot_def createWorkflowRecord_def)

lemma loop_first_pass:
  assumes "faults s = []"
      and "distinct (map WorkflowID ws)"
      and "\<And>w. w \<in> set ws \<Longrightarrow> filter (for_pair (inst_Id i) (WorkflowID w)) (workflows s) = []"
  shows "faults (syncWorkflows_loop rt i ws s) = [] \<and>
         (\<forall>w \<in> set ws. \<exists>n. filter (for_pair (inst_Id i) (WorkflowID w))
                                (workflows (syncWorkflows_loop rt i ws s))
                              = [(createWorkflowRecord rt i w)\<lparr>wr_id := n\<rparr>]) \<and>
         (\<forall>k. k \<notin> set (map WorkflowID ws) \<longrightarrow>
               filter (for_pair (inst_Id i) k) (workflows (syncWorkflows_loop rt i ws s))
                 = filter (for_pair (inst_Id i) k) (workflows s))"
  using assms
proof (induction ws arbitrary: s)
  case Nil
  then show ?case by simp
next
  case (Cons w ws)
  let ?s1 = "syncWorkflows_step rt i w s"
  have none: "filter (for_pair (inst_Id i) (WorkflowID w)) (workflows s) = []"
    using Cons.prems(3) by simp
  have f1: "faults ?s1 = []" and w1: "workflows ?s1 = workflows s @ [snapshot rt i w s]"
    using step_new[OF Cons.prems(1) none, of rt] by simp_all
  have other: "\<And>k. k \<noteq> WorkflowID w \<Longrightarrow>
      filter (for_pair (inst_Id i) k) (workflows ?s1) = filter (for_pair (inst_Id i) k) (workflows s)"
    by (simp add: w1 snapshot_for_pair)
  have this_one: "filter (for_pair (inst_Id i) (WorkflowID w)) (workflows ?s1) = [snapshot rt i w s]"
    by (simp add: w1 none snapshot_for_pair)
  have d: "distinct (map WorkflowID ws)" and notin: "WorkflowID w \<notin> set (map WorkflowID ws)"
    using Cons.prems(2) by simp_all
  have rest_none: "\<And>w'. w' \<in> set ws \<Longrightarrow>
      filter (for_pair (inst_Id i) (WorkflowID w')) (workflows ?s1) = []"
  proof -
    fix w' assume m: "w' \<in> set ws"
    then have "WorkflowID w' \<in> set (map WorkflowID ws)" by simp
    then have "WorkflowID w' \<noteq> WorkflowID w" using notin by metis
    then show "filter (for_pair (inst_Id i) (WorkflowID w')) (workflows ?s1) = []"
      using other[of "WorkflowID w'"] Cons.prems(3)[of w'] m by simp
  qed
  note IH = Cons.IH[OF f1 d rest_none]
  have a: "faults (syncWorkflows_loop rt i (w # ws) s) = []"
    using IH by simp
  have b: "\<forall>k. k \<notin> set (map WorkflowID (w # ws)) \<longrightarrow>
               filter (for_pair (inst_Id i) k) (workflows (syncWorkflows_loop rt i (w # ws) s))
                 = filter (for_pair (inst_Id i) k) (workflows s)"
    using IH other by simp
  have c0: "filter (for_pair (inst_Id i) (WorkflowID w)) (workflows (syncWorkflows_loop rt i (w # ws) s))
              = [snapshot rt i w s]"
    using IH notin this_one by simp
  have c: "\<forall>w' \<in> set (w # ws). \<exists>n. filter (for_pair (inst_Id i) (WorkflowID w'))
                                (workflows (syncWorkflows_loop rt i (w # ws) s))
                              = [(createWorkflowRecord rt i w')\<lparr>wr_id := n\<rparr>]"
  proof
    fix w' assume "w' \<in> set (w # ws)"
    then consider "w' = w" | "w' \<in> set ws" by auto
    then show "\<exists>n. filter (for_pair (inst_Id i) (WorkflowID w'))
                                (workflows (syncWorkflows_loop rt i (w # ws) s))
                              = [(createWorkflowRecord rt i w')\<lparr>wr_id := n\<rparr>]"
    proof cases
      case 1
      then show ?thesis using c0 by (auto simp add: snapshot_def)
    next
      case 2
      then show ?thesis using IH by simp
    qed
  qed
  show ?case using a b c by blast
qed

lemma loop_second_pass:
  assumes "faults s = []"
      and "\<And>w. w \<in> set ws \<Longrightarrow> \<exists>n. filter (for_pair (inst_Id i) (WorkflowID w)) (workflows s)
                              = [(createWorkflowRecord rt i w)\<lparr>wr_id := n\<rparr>]"
  shows "syncWorkflows_loop rt i ws s = s"
  using assms
proof (induction ws)
  case Nil
  show ?case by simp
next
  case (Cons w ws)
  obtain n where "filter (for_pair (inst_Id i) (WorkflowID w)) (workflows s)
                              = [(createWorkflowRecord rt i w)\<lparr>wr_id := n\<rparr>]"
    using Cons.prems(2)[of w] by auto
  then have "syncWorkflows_step rt i w s = s"
    by (rule step_same[OF Cons.prems(1)])
  then show ?case using Cons by simp
qed

lemma loop_idempotent:
  assumes "faults s = []"
      and "distinct (map WorkflowID ws)"
      and "\<And>w. w \<in> set ws \<Longrightarrow> filter (for_pair (inst_Id i) (WorkflowID w)) (workflows s) = []"
  shows "syncWorkflows_loop rt i ws (syncWorkflows_loop rt i ws s) = syncWorkflows_loop rt i ws s"
proof -
  note first = loop_first_pass[OF assms, of rt]
  show ?thesis
    by (rule loop_second_pass) (use first in auto)
qed

lemma SaveInstanceRecord_state:
  "faults s = [] \<Longrightarrow>
     SaveInstanceRecord r s =
       (None, s\<lparr>instances := map (\<lambda>x. if ir_id x = ir_id r then r else x) (instances s)\<rparr>)"
  by (simp add: SaveInstanceRecord_def next_fault_def)

lemma pass_idempotent_from_fresh:
  assumes ok: "faults s = []"
      and fetch: "remote rt (instance_of_record r) = Inr ws"
      and ids: "distinct (map WorkflowID ws)"
      and fresh: "\<And>w. w \<in> set ws \<Longrightarrow> filter (for_pair (ir_id r) (WorkflowID w)) (workflows s) = []"
  shows "reconcile rt r (reconcile rt r s) = reconcile rt r s"
proof -
  define i where "i = instance_of_record r"
  define ws' where "ws' = map (\<lambda>w. w\<lparr>InstanceID := inst_Id i\<rparr>) ws"
  obtain st where stats: "GetInstanceStats ws' = Inr st"
    by (simp add: GetInstanceStats_def)
  define r' where "r' = r\<lparr>ir_workflows_active := ActiveWorkflows st,
                       ir_workflows_inactive := InactiveWorkflows st,
                       ir_webhooks_active := ActiveWebhooks st,
                       ir_webhooks_inactive := InactiveWebhooks st,
                       ir_last_check := DateTime (now rt),
                       ir_availability_status := True,
                       ir_availability_note := []\<rparr>"
  define f where "f = (\<lambda>x. if ir_id x = ir_id r' then r' else x)"
  have r'_id: "ir_id r' = ir_id r"
    by (simp add: r'_def)
  have id: "inst_Id i = ir_id r"
    by (simp add: i_def instance_of_record_def NewInstance_def)
  have pass: "reconcile rt r t = (syncWorkflows_loop rt i ws' t)\<lparr>instances :=
                 map f (instances (syncWorkflows_loop rt i ws' t))\<rparr>"
    if "faults t = []" and "faults (syncWorkflows_loop rt i ws' t) = []" for t
    using that fetch
    by (simp add: reconcile_def syncInstance_def GetWorkflows_def i_def[symmetric]
          ws'_def[symmetric] stats r'_def[symmetric] f_def r'_id
          syncWorkflows_def FindCollectionByNameOrId_ok SaveInstanceRecord_state Let_def)
  have ids': "distinct (map WorkflowID ws')"
    using ids by (simp add: ws'_def comp_def)
  have fresh': "\<And>w. w \<in> set ws' \<Longrightarrow> filter (for_pair (inst_Id i) (WorkflowID w)) (workflows s) = []"
    using fresh by (auto simp add: ws'_def id)
  let ?s1 = "syncWorkflows_loop rt i ws' s"
  note first = loop_first_pass[OF ok ids' fresh', of rt]
  have f1: "faults ?s1 = []" using first by simp
  let ?s2 = "?s1\<lparr>instances := map f (instances ?s1)\<rparr>"
  have p1: "reconcile rt r s = ?s2"
    using pass[OF ok f1] .
  have f2: "faults ?s2 = []" using f1 by simp
  have loop2: "syncWorkflows_loop rt i ws' ?s2 = ?s2"
    by (rule loop_second_pass[OF f2]) (use first in auto)
  have ff: "f \<circ> f = f"
    by (auto simp add: f_def fun_eq_iff)
  have p2: "reconcile rt r ?s2 = ?s2"
    using pass[of ?s2] f2 loop2 by (simp add: ff)
  show ?thesis
    unfolding p1 using p2 .
qed

text \<open>
  C3 does not hold of the code. The lookup sorts the stored snapshots of a workflow by the
  text field \<open>created_at\<close>, the creation time the remote instance reported for the
  workflow, not by the time a snapshot was stored, so it need not return the snapshot the
  previous pass stored. Here the store holds a snapshot of workflow \<open>w1\<close> with
  \<open>created_at\<close> 2024-02-01, and the remote instance now reports \<open>createdAt\<close> 2024-01-01
  for \<open>w1\<close>. The first pass stores a snapshot (identity 2) that agrees with the remote
  workflow and replaces the webhooks. The second pass, against the same remote list, looks
  up the snapshot of 2024-02-01 again, finds a difference, stores a further snapshot
  (identity 5) and deletes and re-inserts the webhooks (identities 6 and 7 for 3 and 4).

  The same happens after an ordinary edit, which leaves \<open>created_at\<close> as it was and
  changes \<open>updated_at\<close>, when the store returns the row inserted first among rows with
  equal sort key (\<open>tie_break\<close> of the example store): the second pass compares with the
  snapshot from before the edit (the last equation).
\<close>

theorem second_pass_writes_again:
  "map (\<lambda>r. (wr_id r, wr_created_at r, wr_updated_at r, wr_active r))
     (workflows (reconcile ex_rt (ex_record ''i1'')
        (ex_store [ex_snapshot ''2024-02-01T00:00:00Z'' ''2024-03-01T00:00:00Z''] [])))
     = [(0, ''2024-02-01T00:00:00Z'', ''2024-03-01T00:00:00Z'', True),
        (2, ''2024-01-01T00:00:00Z'', ''2024-03-01T00:00:00Z'', True)] \<and>
   map (\<lambda>r. (hr_id r, hr_node_id r))
     (webhooks (reconcile ex_rt (ex_record ''i1'')
        (ex_store [ex_snapshot ''2024-02-01T00:00:00Z'' ''2024-03-01T00:00:00Z''] [])))
     = [(3, ''A''), (4, ''B'')] \<and>
   map (\<lambda>r. (wr_id r, wr_created_at r, wr_updated_at r, wr_active r))
     (workflows (reconcile ex_rt (ex_record ''i1'') (reconcile ex_rt (ex_record ''i1'')
        (ex_store [ex_snapshot ''2024-02-01T00:00:00Z'' ''2024-03-01T00:00:00Z''] []))))
     = [(0, ''2024-02-01T00:00:00Z'', ''2024-03-01T00:00:00Z'', True),
        (2, ''2024-01-01T00:00:00Z'', ''2024-03-01T00:00:00Z'', True),
        (5, ''2024-01-01T00:00:00Z'', ''2024-03-01T00:00:00Z'', True)] \<and>
   map (\<lambda>r. (hr_id r, hr_node_id r))
     (webhooks (reconcile ex_rt (ex_record ''i1'') (reconcile ex_rt (ex_record ''i1'')
        (ex_store [ex_snapshot ''2024-02-01T00:00:00Z'' ''2024-03-01T00:00:00Z''] []))))
     = [(6, ''A''), (7, ''B'')] \<and>
   map (\<lambda>r. (wr_id r, wr_created_at r, wr_updated_at r, wr_active r))
     (workflows (reconcile ex_rt (ex_record ''i1'') (reconcile ex_rt (ex_record ''i1'')
        (ex_store [ex_snapshot ''2024-01-01T00:00:00Z'' ''2024-02-01T00:00:00Z''] []))))
     = [(0, ''2024-01-01T00:00:00Z'', ''2024-02-01T00:00:00Z'', True),
        (2, ''2024-01-01T00:00:00Z'', ''2024-03-01T00:00:00Z'', True),
        (5, ''2024-01-01T00:00:00Z'', ''2024-03-01T00:00:00Z'', True)]"
  by (simp add: example_data store_steps pass_steps)

text \<open>Starting from a store without snapshots, the second pass of the example changes nothing.\<close>

lemma second_pass_quiet_from_empty:
  "reconcile ex_rt (ex_record ''i1'') (reconcile ex_rt (ex_record ''i1'') (ex_store [] []))
     = reconcile ex_rt (ex_record ''i1'') (ex_store [] [])"
  by (simp add: example_data store_steps pass_steps)

end
